theory Spec2Isabelle
  imports Main "HOL-Library.Word"
begin

unbundle bit_operations_syntax

section \<open>Errors\<close>

text \<open>
  The sentinel error values the sources compare against and return (\<open>Err...\<close>), and
  \<open>ErrOther\<close> for every other error value a protocol call may hand back. A Go
  \<open>error\<close> result is an \<open>error option\<close>: \<open>None\<close> is \<open>nil\<close>.
\<close>

datatype error =
    ErrStaleElementReference
  | ErrNoSuchElement
  | ErrElementInvisible
  | ErrCannotFindContext
  | ErrSessionClosed
  | ErrElementMissClick
  | ErrInvalidElementFrame
  | ErrElementNotFocusable
  | ErrInvalidString
  | ErrInvalidElementSelect
  | ErrInvalidElementOption
  | ErrDetachedFromTarget
  | ErrDeadlineExceeded
  | ErrOther string

section \<open>transport/observe/observer.go\<close>

record Value =
  Method :: string
  Params :: "8 word list"

text \<open>
  An \<open>Observer\<close> is an interface value with the methods \<open>ID\<close>, \<open>Event\<close> and
  \<open>Notify\<close>. The callback acts on the world outside the observable, of type \<open>'s\<close>.
  The method value \<open>e.Notify\<close> of an interface value is never \<open>nil\<close>, so the test
  \<open>e.Notify != nil\<close> of the source is always true and has no branch here.
\<close>

record 's Observer =
  obs_ID :: string
  obs_Event :: string
  obs_Notify :: "Value \<Rightarrow> 's \<Rightarrow> 's"

text \<open>
  \<open>Observable.Notify\<close>: the loop over \<open>o.observers\<close>, under the mutex (one call runs
  at a time, so the mutex has no counterpart here). The result is the list of callback
  invocations the loop made, in the order it made them, and the world after them.
\<close>

fun Notify :: "'s Observer list \<Rightarrow> string \<Rightarrow> Value \<Rightarrow> 's \<Rightarrow> ('s Observer \<times> Value) list \<times> 's" where
  "Notify [] event val s = ([], s)"
| "Notify (e # es) event val s =
     (if obs_Event e = ''*'' \<or> event = '''' \<or> obs_Event e = event
      then (case Notify es event val (obs_Notify e val s) of
              (invoked, s') \<Rightarrow> ((e, val) # invoked, s'))
      else Notify es event val s)"

definition Register :: "'s Observer list \<Rightarrow> 's Observer \<Rightarrow> 's Observer list" where
  "Register observers val = observers @ [val]"

text \<open>
  \<open>Observable.Unregister\<close>: the loop \<open>for n, e := range o.observers\<close> from index
  \<open>n\<close> on. At the first entry with the identity of \<open>val\<close> the last entry is copied
  into its place, the slice is cut by one, and the function returns.
\<close>

function Unregister_from :: "nat \<Rightarrow> 's Observer list \<Rightarrow> 's Observer \<Rightarrow> 's Observer list" where
  "Unregister_from n observers val =
     (if n < length observers
      then (if obs_ID (observers ! n) = obs_ID val
            then (let tail = length observers - 1
                  in take tail (observers[n := observers ! tail]))
            else Unregister_from (Suc n) observers val)
      else observers)"
  by pat_completeness auto
termination
  by (relation "measure (\<lambda>(n, observers, val). length observers - n)") auto

definition Unregister :: "'s Observer list \<Rightarrow> 's Observer \<Rightarrow> 's Observer list" where
  "Unregister observers val = Unregister_from 0 observers val"

datatype 's bus_op = Reg "'s Observer" | Unreg "'s Observer"

fun apply_op :: "'s Observer list \<Rightarrow> 's bus_op \<Rightarrow> 's Observer list" where
  "apply_op observers (Reg val) = Register observers val"
| "apply_op observers (Unreg val) = Unregister observers val"

definition run_ops :: "'s bus_op list \<Rightarrow> 's Observer list" where
  "run_ops ops = foldl apply_op [] ops"

text \<open>
  The delivery filter in the words of the specification: an observer with filter \<open>f\<close>
  receives a notification named \<open>e\<close> iff \<open>f = "*"\<close>, or \<open>e\<close> is empty, or \<open>f = e\<close>.
\<close>

definition receives :: "'s Observer \<Rightarrow> string \<Rightarrow> bool" where
  "receives ob e \<longleftrightarrow> obs_Event ob = ''*'' \<or> e = '''' \<or> obs_Event ob = e"

text \<open>
  The registration order in the words of the specification: the observers that are
  registered now, in the order in which they were registered. Registering appends;
  unregistering takes the first entry with that identity out and keeps the others in
  place.
\<close>

fun remove_first_id :: "string \<Rightarrow> 's Observer list \<Rightarrow> 's Observer list" where
  "remove_first_id i [] = []"
| "remove_first_id i (ob # obs) = (if obs_ID ob = i then obs else ob # remove_first_id i obs)"

fun registration_step :: "'s Observer list \<Rightarrow> 's bus_op \<Rightarrow> 's Observer list" where
  "registration_step obs (Reg val) = obs @ [val]"
| "registration_step obs (Unreg val) = remove_first_id (obs_ID val) obs"

definition registration_order :: "'s bus_op list \<Rightarrow> 's Observer list" where
  "registration_order ops = foldl registration_step [] ops"

fun is_Reg :: "'s bus_op \<Rightarrow> bool" where
  "is_Reg (Reg val) = True"
| "is_Reg (Unreg val) = False"

fun op_observer :: "'s bus_op \<Rightarrow> 's Observer" where
  "op_observer (Reg val) = val"
| "op_observer (Unreg val) = val"

section \<open>browser.go\<close>

text \<open>
  The protocol calls a \<open>BrowserContext\<close> and the sessions it starts issue, as they are
  recorded in the order issued. The first component of a session-scoped call is the
  session identifier.
\<close>

datatype protocol_call =
    Target_createTarget string
  | Target_attachToTarget string bool
  | Target_closeTarget string
  | Client_Register string
  | Page_enable string
  | Runtime_enable string
  | Runtime_addBinding string string
  | Page_setLifecycleEventsEnabled string bool
  | Target_setDiscoverTargets string bool
  | Network_enable string nat

text \<open>
  The transport client and the protocol packages are outside the sources at hand. They
  are a parameter: a deterministic browser with a state \<open>'w\<close> that answers each call.
  A call with a reply value returns the value and the error, as the Go functions do; the
  sources read the value only when the error is \<open>nil\<close>. The constants \<open>Blank\<close> and
  \<open>bindClick\<close> are declared outside the sources at hand and are parameters too.
\<close>

record 'w Client =
  Blank :: string
  bindClick :: string
  createTarget :: "string \<Rightarrow> 'w \<Rightarrow> (string \<times> error option) \<times> 'w"
  attachToTarget :: "string \<Rightarrow> bool \<Rightarrow> 'w \<Rightarrow> (string \<times> error option) \<times> 'w"
  closeTarget :: "string \<Rightarrow> 'w \<Rightarrow> error option \<times> 'w"
  sessionCall :: "protocol_call \<Rightarrow> 'w \<Rightarrow> error option \<times> 'w"

record 'w browser =
  remote :: 'w
  issued :: "protocol_call list"

record Session =
  sid :: string
  tid :: string

definition issue :: "protocol_call \<Rightarrow> 'w browser \<Rightarrow> 'w \<Rightarrow> 'w browser" where
  "issue c b w = b\<lparr>remote := w, issued := issued b @ [c]\<rparr>"

text \<open>
  The enabling calls of \<open>runSession\<close>, one after the other; the first error ends the
  sequence.
\<close>

fun enable_all :: "'w Client \<Rightarrow> protocol_call list \<Rightarrow> 'w browser \<Rightarrow> error option \<times> 'w browser" where
  "enable_all C [] b = (None, b)"
| "enable_all C (c # cs) b =
     (case sessionCall C c (remote b) of
        (Some err, w) \<Rightarrow> (Some err, issue c b w)
      | (None, w) \<Rightarrow> enable_all C cs (issue c b w))"

text \<open>
  \<open>runSession\<close>: the session value is built, the dispatch loop is started (a
  concurrent task, not modelled), the session is registered with the client, and the
  domains are enabled.
\<close>

definition runSession :: "'w Client \<Rightarrow> string \<Rightarrow> string \<Rightarrow> 'w browser \<Rightarrow> (Session option \<times> error option) \<times> 'w browser" where
  "runSession C targetID sessionID b =
     (let session = \<lparr>sid = sessionID, tid = targetID\<rparr>;
          b1 = b\<lparr>issued := issued b @ [Client_Register sessionID]\<rparr>
      in case enable_all C
                [Page_enable sessionID,
                 Runtime_enable sessionID,
                 Runtime_addBinding sessionID (bindClick C),
                 Page_setLifecycleEventsEnabled sessionID True,
                 Target_setDiscoverTargets sessionID True,
                 Network_enable sessionID (2 * 1024)] b1 of
           (Some err, b2) \<Rightarrow> ((None, Some err), b2)
         | (None, b2) \<Rightarrow> ((Some session, None), b2))"

definition AttachPageTarget :: "'w Client \<Rightarrow> string \<Rightarrow> 'w browser \<Rightarrow> (Session option \<times> error option) \<times> 'w browser" where
  "AttachPageTarget C tgt b =
     (case attachToTarget C tgt True (remote b) of
        ((val, Some err), w) \<Rightarrow> ((None, Some err), issue (Target_attachToTarget tgt True) b w)
      | ((val, None), w) \<Rightarrow> runSession C tgt val (issue (Target_attachToTarget tgt True) b w))"

definition CreatePageTarget :: "'w Client \<Rightarrow> string \<Rightarrow> 'w browser \<Rightarrow> (Session option \<times> error option) \<times> 'w browser" where
  "CreatePageTarget C url b =
     (let url = (if url = '''' then Blank C else url)
      in case createTarget C url (remote b) of
           ((r, Some err), w) \<Rightarrow> ((None, Some err), issue (Target_createTarget url) b w)
         | ((r, None), w) \<Rightarrow> AttachPageTarget C r (issue (Target_createTarget url) b w))"

definition CloseTarget :: "'w Client \<Rightarrow> string \<Rightarrow> 'w browser \<Rightarrow> error option \<times> 'w browser" where
  "CloseTarget C tgt b =
     (case closeTarget C tgt (remote b) of
        (err, w) \<Rightarrow>
          (if err = Some ErrDetachedFromTarget
           then (None, issue (Target_closeTarget tgt) b w)
           else (err, issue (Target_closeTarget tgt) b w)))"

text \<open>The calls issued between two states of the browser context.\<close>

definition issued_since :: "'w browser \<Rightarrow> 'w browser \<Rightarrow> protocol_call list" where
  "issued_since b b' = drop (length (issued b)) (issued b')"

fun is_createTarget :: "protocol_call \<Rightarrow> bool" where
  "is_createTarget (Target_createTarget url) = True"
| "is_createTarget c = False"

text \<open>Observers for concrete runs: the callback writes the observer's identity to a log.\<close>

definition logging_observer :: "string \<Rightarrow> string \<Rightarrow> string list Observer" where
  "logging_observer i f = \<lparr>obs_ID = i, obs_Event = f, obs_Notify = (\<lambda>val log. log @ [i])\<rparr>"

text \<open>
  A browser for concrete runs. Its state counts the calls answered so far; closing the
  target \<open>gone\<close> reports it detached, closing \<open>bad\<close> fails otherwise.
\<close>

definition test_client :: "nat Client" where
  "test_client = \<lparr>Blank = ''about:blank'', bindClick = ''_on_click'',
     createTarget = (\<lambda>url n. ((''T'' @ url, None), Suc n)),
     attachToTarget = (\<lambda>t flatten n. ((''S'' @ t, None), Suc n)),
     closeTarget = (\<lambda>t n. (if t = ''gone'' then Some ErrDetachedFromTarget else if t = ''bad'' then Some (ErrOther ''no target'') else None, Suc n)),
     sessionCall = (\<lambda>c n. (None, Suc n))\<rparr>"

section \<open>unnamed/part_000: element handles\<close>

subsection \<open>Values of the remote side\<close>

text \<open>
  The types of package \<open>devtool\<close> are declared outside the sources at hand; they are
  modelled with the fields the sources read. A pointer that may be \<open>nil\<close> is an
  option. \<open>Value\<close> is an \<open>interface{}\<close>: the variants are the dynamic types the sources
  assert. A \<open>float64\<close> is its IEEE 754 bit pattern: the sources pass coordinates on as
  they come and subtract them in \<open>GetRectangle\<close> only, and the subtraction of the machine
  is a parameter.
\<close>

type_synonym float64 = "64 word"

datatype remote_value = VNull | VBool bool | VString string | VNumber float64

record RemoteObject =
  Type :: string
  Subtype :: string
  ObjectID :: string
  Description :: string
  Value :: remote_value

record PropertyDescriptor =
  Enumerable :: bool
  propValue :: "RemoteObject option"

record Node =
  NodeName :: string
  FrameID :: string

type_synonym Quad = "(float64 \<times> float64) list"


text \<open>
  The function declarations of package \<open>atom\<close> (JavaScript texts declared outside the
  sources at hand), and \<open>Declaration\<close> for a text the caller of \<open>Call\<close> supplies.
\<close>

datatype functionDeclaration =
    atom_Query
  | atom_QueryAll
  | atom_ScrollIntoView
  | atom_PreventMissClick
  | atom_IsClickHit
  | atom_IsVisible
  | atom_ClearInput
  | atom_DispatchEvents
  | atom_GetInnerText
  | atom_SetAttr
  | atom_GetAttr
  | atom_GetComputedStyle
  | atom_GetSelected
  | atom_GetSelectedText
  | atom_SelectHasOptions
  | atom_Select
  | atom_CheckBox
  | atom_IsChecked
  | Declaration string

datatype arg = ArgString string | ArgStrings "string list" | ArgBool bool

datatype mouse_event = dispatchMouseEventMoved | dispatchMouseEventPressed | dispatchMouseEventReleased

datatype LogLevel = LevelFatal

text \<open>
  What a handle asks of its session: the protocol calls, the log and the pauses. Each
  is recorded, in the order made, with the error it came back with.
\<close>

datatype request =
    Runtime_evaluate string int bool
  | Runtime_callFunctionOn string functionDeclaration "arg list"
  | Runtime_releaseObject string
  | Runtime_getProperties string
  | DOM_describeNode string
  | DOM_focus string
  | DOM_setFileInputFiles "string list" string
  | DOM_getContentQuads string bool
  | DOMDebugger_getEventListeners string
  | Input_dispatchMouseEvent float64 float64 mouse_event string
  | Input_MouseMove float64 float64
  | Input_insertText string
  | Input_SendKeys "32 word list"
  | Page_createIsolatedWorld string
  | Logging_Printf LogLevel string
  | time_Sleep nat

datatype reply =
    ReplyNone
  | ReplyObject "RemoteObject option"
  | ReplyProperties "PropertyDescriptor list"
  | ReplyNode "Node option"
  | ReplyQuad Quad
  | ReplyListeners "string list"

text \<open>
  The session and the browser behind it are outside the sources at hand. They are a
  parameter: \<open>answer\<close> is a deterministic remote side with a state \<open>'w\<close>, which gives
  each request a reply and an error; \<open>getContextID\<close> reads the current top-level
  execution context; \<open>unmarshal\<close> is the error of decoding a reply; \<open>Bool\<close> is
  \<open>RemoteObject.Bool\<close> and \<open>Middle\<close> is \<open>Quad.Middle\<close>, on values that are not \<open>nil\<close>;
  \<open>float64_sub\<close> is the subtraction of \<open>float64\<close>;
  \<open>polls\<close> is the number of attempts that fit into the deadline of the retry primitive.
\<close>

record 'w Remote =
  answer :: "request \<Rightarrow> 'w \<Rightarrow> (reply \<times> error option) \<times> 'w"
  getContextID :: "'w \<Rightarrow> int"
  unmarshal :: "reply \<Rightarrow> error option"
  Bool :: "RemoteObject \<Rightarrow> bool"
  Middle :: "Quad \<Rightarrow> float64 \<times> float64"
  float64_sub :: "float64 \<Rightarrow> float64 \<Rightarrow> float64"
  polls :: nat

subsection \<open>Handles, the store and outcomes\<close>

text \<open>
  \<open>*element\<close> is an address in a store. The field \<open>session\<close> has no counterpart: one
  session is modelled, and all handles belong to it. \<open>detached\<close> is the \<open>int64\<close> the
  sources read and write atomically; one call runs at a time here.
\<close>

type_synonym addr = nat

record element =
  ID :: string
  description :: string
  parent :: "addr option"
  childs :: "addr list"
  detached :: "64 word"

record 'w state =
  heap :: "addr \<rightharpoonup> element"
  nxt :: addr
  world :: 'w
  trace :: "(request \<times> error option) list"

text \<open>
  A Go function returns its results or panics. \<open>NilDereference\<close> is the run-time panic
  of reading through a \<open>nil\<close> pointer, \<open>TypeAssertion\<close> and \<open>IndexOutOfRange\<close> those of a
  failed \<open>x.(T)\<close> and of \<open>q[i]\<close> beyond the length, \<open>PanicError\<close> is \<open>panic(err)\<close>.
\<close>

datatype panic = NilDereference | TypeAssertion | IndexOutOfRange | PanicError error

datatype 'a outcome = Ret 'a | Panic panic

definition seq :: "('s \<Rightarrow> 'a outcome \<times> 's) \<Rightarrow> ('a \<Rightarrow> 's \<Rightarrow> 'b outcome \<times> 's) \<Rightarrow> 's \<Rightarrow> 'b outcome \<times> 's" where
  "seq m f s = (case m s of (Panic p, s') \<Rightarrow> (Panic p, s') | (Ret x, s') \<Rightarrow> f x s')"

definition ret :: "'a \<Rightarrow> 's \<Rightarrow> 'a outcome \<times> 's" where
  "ret x s = (Ret x, s)"

definition raise :: "panic \<Rightarrow> 's \<Rightarrow> 'a outcome \<times> 's" where
  "raise p s = (Panic p, s)"

text \<open>Reading through a handle: a panic where the store has nothing at the address.\<close>

definition deref :: "addr \<Rightarrow> 'w state \<Rightarrow> element outcome \<times> 'w state" where
  "deref e s = (case heap s e of None \<Rightarrow> (Panic NilDereference, s) | Some el \<Rightarrow> (Ret el, s))"

definition modify :: "addr \<Rightarrow> (element \<Rightarrow> element) \<Rightarrow> 'w state \<Rightarrow> 'w state" where
  "modify e f s = s\<lparr>heap := (heap s)(e := map_option f (heap s e))\<rparr>"

subsection \<open>The session's methods\<close>

definition send :: "'w Remote \<Rightarrow> request \<Rightarrow> 'w state \<Rightarrow> (reply \<times> error option) \<times> 'w state" where
  "send R req s =
     (case answer R req (world s) of
        ((rep, err), w) \<Rightarrow> ((rep, err), s\<lparr>world := w, trace := trace s @ [(req, err)]\<rparr>))"

fun object_of :: "reply \<Rightarrow> RemoteObject option" where
  "object_of (ReplyObject ro) = ro"
| "object_of rep = None"

fun properties_of :: "reply \<Rightarrow> PropertyDescriptor list" where
  "properties_of (ReplyProperties ds) = ds"
| "properties_of rep = []"

fun node_of :: "reply \<Rightarrow> Node option" where
  "node_of (ReplyNode n) = n"
| "node_of rep = None"

fun quad_of :: "reply \<Rightarrow> Quad" where
  "quad_of (ReplyQuad q) = q"
| "quad_of rep = []"


text \<open>
  The methods with a result beside the error hand back the zero value of the result
  (\<open>nil\<close>, the empty slice) with an error that is not \<open>nil\<close>.
\<close>

definition blockingSend :: "'w Remote \<Rightarrow> request \<Rightarrow> 'w state \<Rightarrow> (reply \<times> error option) \<times> 'w state" where
  "blockingSend R req s = send R req s"

definition evaluate :: "'w Remote \<Rightarrow> string \<Rightarrow> int \<Rightarrow> bool \<Rightarrow> 'w state \<Rightarrow> (RemoteObject option \<times> error option) \<times> 'w state" where
  "evaluate R expression contextID async s =
     (case send R (Runtime_evaluate expression contextID async) s of
        ((rep, Some err), s') \<Rightarrow> ((None, Some err), s')
      | ((rep, None), s') \<Rightarrow> ((object_of rep, None), s'))"

definition callFunctionOn :: "'w Remote \<Rightarrow> string \<Rightarrow> functionDeclaration \<Rightarrow> arg list \<Rightarrow> 'w state \<Rightarrow> (RemoteObject option \<times> error option) \<times> 'w state" where
  "callFunctionOn R objectID functionDeclaration args s =
     (case send R (Runtime_callFunctionOn objectID functionDeclaration args) s of
        ((rep, Some err), s') \<Rightarrow> ((None, Some err), s')
      | ((rep, None), s') \<Rightarrow> ((object_of rep, None), s'))"

definition releaseObject :: "'w Remote \<Rightarrow> string \<Rightarrow> 'w state \<Rightarrow> error option \<times> 'w state" where
  "releaseObject R objectID s =
     (case send R (Runtime_releaseObject objectID) s of ((rep, err), s') \<Rightarrow> (err, s'))"

definition getProperties :: "'w Remote \<Rightarrow> string \<Rightarrow> 'w state \<Rightarrow> (PropertyDescriptor list \<times> error option) \<times> 'w state" where
  "getProperties R objectID s =
     (case send R (Runtime_getProperties objectID) s of
        ((rep, Some err), s') \<Rightarrow> (([], Some err), s')
      | ((rep, None), s') \<Rightarrow> ((properties_of rep, None), s'))"

definition getContentQuads :: "'w Remote \<Rightarrow> string \<Rightarrow> bool \<Rightarrow> 'w state \<Rightarrow> (Quad \<times> error option) \<times> 'w state" where
  "getContentQuads R objectID viewportCorrection s =
     (case send R (DOM_getContentQuads objectID viewportCorrection) s of
        ((rep, Some err), s') \<Rightarrow> (([], Some err), s')
      | ((rep, None), s') \<Rightarrow> ((quad_of rep, None), s'))"

definition dispatchMouseEvent :: "'w Remote \<Rightarrow> float64 \<Rightarrow> float64 \<Rightarrow> mouse_event \<Rightarrow> string \<Rightarrow> 'w state \<Rightarrow> error option \<times> 'w state" where
  "dispatchMouseEvent R x y eventType button s =
     (case send R (Input_dispatchMouseEvent x y eventType button) s of ((rep, err), s') \<Rightarrow> (err, s'))"

definition MouseMove :: "'w Remote \<Rightarrow> float64 \<Rightarrow> float64 \<Rightarrow> 'w state \<Rightarrow> error option \<times> 'w state" where
  "MouseMove R x y s = (case send R (Input_MouseMove x y) s of ((rep, err), s') \<Rightarrow> (err, s'))"

definition insertText :: "'w Remote \<Rightarrow> string \<Rightarrow> 'w state \<Rightarrow> error option \<times> 'w state" where
  "insertText R text s = (case send R (Input_insertText text) s of ((rep, err), s') \<Rightarrow> (err, s'))"

definition SendKeys :: "'w Remote \<Rightarrow> 32 word list \<Rightarrow> 'w state \<Rightarrow> error option \<times> 'w state" where
  "SendKeys R key s = (case send R (Input_SendKeys key) s of ((rep, err), s') \<Rightarrow> (err, s'))"


text \<open>
  The logger and the clock are outside the sources at hand: a log line and a pause are
  recorded among the requests and return.
\<close>

definition Printf :: "LogLevel \<Rightarrow> string \<Rightarrow> 'w state \<Rightarrow> 'w state" where
  "Printf level msg s = s\<lparr>trace := trace s @ [(Logging_Printf level msg, None)]\<rparr>"

definition Sleep :: "nat \<Rightarrow> 'w state \<Rightarrow> 'w state" where
  "Sleep ms s = s\<lparr>trace := trace s @ [(time_Sleep ms, None)]\<rparr>"

text \<open>
  Modelled from the spec: the retry primitive \<open>Session.Ticker\<close> (the RetryLoop), whose
  code is outside the sources at hand. It attempts the callback again and again until an
  attempt succeeds or the deadline is reached: the first attempt without an error ends
  it with that attempt's value; when the attempts that fit into the deadline have all
  failed it ends with the deadline-exceeded error. A panic of the callback passes
  through.
\<close>

fun Ticker :: "nat \<Rightarrow> ('s \<Rightarrow> ('a option \<times> error option) outcome \<times> 's) \<Rightarrow> 's \<Rightarrow> ('a option \<times> error option) outcome \<times> 's" where
  "Ticker 0 f s = (Ret (None, Some ErrDeadlineExceeded), s)"
| "Ticker (Suc n) f s =
     (case f s of
        (Panic p, s') \<Rightarrow> (Panic p, s')
      | (Ret (v, None), s') \<Rightarrow> (Ret (v, None), s')
      | (Ret (v, Some err), s') \<Rightarrow> Ticker n f s')"

subsection \<open>The handle's methods\<close>

definition lift :: "('s \<Rightarrow> 'a \<times> 's) \<Rightarrow> 's \<Rightarrow> 'a outcome \<times> 's" where
  "lift m s = (case m s of (x, s') \<Rightarrow> (Ret x, s'))"

definition pause :: "nat \<Rightarrow> 'w state \<Rightarrow> unit outcome \<times> 'w state" where
  "pause ms s = (Ret (), Sleep ms s)"

text \<open>\<open>strings.ReplaceAll(selector, `"`, `\"`)\<close>: a backslash before every double quote.\<close>

definition escape_quotes :: "string \<Rightarrow> string" where
  "escape_quotes selector = concat (map (\<lambda>c. if c = CHR 0x22 then [CHR 0x5C, CHR 0x22] else [c]) selector)"

definition newElement :: "addr option \<Rightarrow> string \<Rightarrow> string \<Rightarrow> 'w state \<Rightarrow> addr outcome \<times> 'w state" where
  "newElement parent' ID' description' s =
     (let e = nxt s;
          s1 = s\<lparr>heap := (heap s)(e \<mapsto> \<lparr>ID = ID', description = description', parent = parent',
                                          childs = [], detached = 0\<rparr>),
                 nxt := Suc (nxt s)\<rparr>
      in case parent' of
           None \<Rightarrow> (Ret e, s1)
         | Some p \<Rightarrow>
             (case heap s1 p of
                None \<Rightarrow> (Panic NilDereference, s1)
              | Some pel \<Rightarrow> (Ret e, modify p (\<lambda>pel. pel\<lparr>childs := childs pel @ [e]\<rparr>) s1)))"

text \<open>
  \<open>detach\<close>: the flag of the handle is set, then every child is detached in turn, each
  with its own subtree. \<open>Inl e\<close> is the call \<open>e.detach()\<close>, \<open>Inr cs\<close> is the rest \<open>cs\<close> of
  the loop over \<open>e.childs\<close>. The recursion follows the pointers of the store, so the
  result is an option: \<open>None\<close> when the walk does not end.
\<close>

partial_function (option) detach_walk :: "addr + addr list \<Rightarrow> (addr \<rightharpoonup> element) \<Rightarrow> (unit outcome \<times> (addr \<rightharpoonup> element)) option" where
  "detach_walk x h =
     (case x of
        Inl e \<Rightarrow>
          (case h e of
             None \<Rightarrow> Some (Panic NilDereference, h)
           | Some el \<Rightarrow> detach_walk (Inr (childs el)) (h(e \<mapsto> el\<lparr>detached := 1\<rparr>)))
      | Inr cs \<Rightarrow>
          (case cs of
             [] \<Rightarrow> Some (Ret (), h)
           | c # cs' \<Rightarrow>
               Option.bind (detach_walk (Inl c) h)
                 (\<lambda>r. case r of
                         (Panic p, h') \<Rightarrow> Some (Panic p, h')
                       | (Ret u, h') \<Rightarrow> detach_walk (Inr cs') h')))"

definition detach :: "addr \<Rightarrow> 'w state \<Rightarrow> (unit outcome \<times> 'w state) option" where
  "detach e s = map_option (\<lambda>(r, h'). (r, s\<lparr>heap := h'\<rparr>)) (detach_walk (Inl e) (heap s))"

definition isDetached :: "element \<Rightarrow> bool" where
  "isDetached el \<longleftrightarrow> detached el = 1"

text \<open>
  \<open>Release\<close>: the release call is made with the handle's identifier, the deferred
  \<open>detach\<close> runs after it, and the error of the release call is returned.
\<close>

definition Release :: "'w Remote \<Rightarrow> addr \<Rightarrow> 'w state \<Rightarrow> (error option outcome \<times> 'w state) option" where
  "Release R e s =
     (case heap s e of
        None \<Rightarrow> Some (Panic NilDereference, s)
      | Some el \<Rightarrow>
          (case releaseObject R (ID el) s of
             (err, s1) \<Rightarrow>
               (case detach e s1 of
                  None \<Rightarrow> None
                | Some (Panic p, s2) \<Rightarrow> Some (Panic p, s2)
                | Some (Ret u, s2) \<Rightarrow> Some (Ret err, s2))))"

definition renew :: "'w Remote \<Rightarrow> addr \<Rightarrow> 'w state \<Rightarrow> error option outcome \<times> 'w state" where
  "renew R e s =
     (case heap s e of
        None \<Rightarrow> (Panic NilDereference, s)
      | Some el \<Rightarrow>
          if \<not> isDetached el then (Ret None, s)
          else if parent el = None then
            (case evaluate R ''document'' (getContextID R (world s)) False s of
               ((new, Some err), s1) \<Rightarrow> (Ret (Some ErrStaleElementReference), s1)
             | ((None, None), s1) \<Rightarrow> (Panic NilDereference, s1)
             | ((Some new, None), s1) \<Rightarrow>
                 (Ret None, modify e (\<lambda>el. el\<lparr>ID := ObjectID new, detached := 0\<rparr>) s1))
          else (Ret None, Printf LevelFatal ''todo: renew element is not implemented yet'' s))"

definition call :: "'w Remote \<Rightarrow> addr \<Rightarrow> functionDeclaration \<Rightarrow> arg list \<Rightarrow> 'w state \<Rightarrow> (RemoteObject option \<times> error option) outcome \<times> 'w state" where
  "call R e functionDeclaration args =
     seq (renew R e) (\<lambda>err. case err of
       Some err \<Rightarrow> ret (None, Some err)
     | None \<Rightarrow> seq (deref e) (\<lambda>el. lift (callFunctionOn R (ID el) functionDeclaration args)))"

definition findElement :: "'w Remote \<Rightarrow> addr \<Rightarrow> string \<Rightarrow> 'w state \<Rightarrow> (addr option \<times> error option) outcome \<times> 'w state" where
  "findElement R e selector =
     seq (renew R e) (\<lambda>err. case err of
       Some err \<Rightarrow> ret (None, Some err)
     | None \<Rightarrow>
         seq (call R e atom_Query [ArgString (escape_quotes selector)]) (\<lambda>(element, err). case err of
           Some err \<Rightarrow> ret (None, Some err)
         | None \<Rightarrow>
             (case element of
                None \<Rightarrow> raise NilDereference
              | Some element \<Rightarrow>
                  if Subtype element = ''null'' then ret (None, Some ErrNoSuchElement)
                  else seq (newElement (Some e) (ObjectID element) (Description element))
                         (\<lambda>new. ret (Some new, None)))))"

definition Seek :: "'w Remote \<Rightarrow> addr \<Rightarrow> string \<Rightarrow> 'w state \<Rightarrow> (addr option \<times> error option) outcome \<times> 'w state" where
  "Seek R e selector = findElement R e selector"

text \<open>The loop of \<open>findElements\<close> over the property descriptors.\<close>

fun newElements :: "addr \<Rightarrow> PropertyDescriptor list \<Rightarrow> addr list \<Rightarrow> 'w state \<Rightarrow> addr list outcome \<times> 'w state" where
  "newElements e [] els s = (Ret els, s)"
| "newElements e (d # ds) els s =
     (if \<not> Enumerable d then newElements e ds els s
      else (case propValue d of
              None \<Rightarrow> (Panic NilDereference, s)
            | Some v \<Rightarrow>
                (case newElement (Some e) (ObjectID v) (Description v) s of
                   (Panic p, s') \<Rightarrow> (Panic p, s')
                 | (Ret new, s') \<Rightarrow> newElements e ds (els @ [new]) s')))"

definition findElements :: "'w Remote \<Rightarrow> addr \<Rightarrow> string \<Rightarrow> 'w state \<Rightarrow> (addr list \<times> error option) outcome \<times> 'w state" where
  "findElements R e selector =
     seq (renew R e) (\<lambda>err. case err of
       Some err \<Rightarrow> ret ([], Some err)
     | None \<Rightarrow>
         seq (call R e atom_QueryAll [ArgString (escape_quotes selector)]) (\<lambda>(ro, err). case err of
           Some err \<Rightarrow> ret ([], Some err)
         | None \<Rightarrow>
             if ro = None \<or> map_option Description ro = Some ''NodeList(0)''
             then (case ro of
                     None \<Rightarrow> raise NilDereference
                   | Some ro \<Rightarrow>
                       seq (lift (releaseObject R (ObjectID ro))) (\<lambda>ignored. ret ([], Some ErrNoSuchElement)))
             else (case ro of
                     None \<Rightarrow> raise NilDereference
                   | Some ro \<Rightarrow>
                       seq (lift (getProperties R (ObjectID ro))) (\<lambda>(descriptor, err).
                         seq (newElements e descriptor []) (\<lambda>els. ret (els, None))))))"

definition SeekAll :: "'w Remote \<Rightarrow> addr \<Rightarrow> string \<Rightarrow> 'w state \<Rightarrow> addr list outcome \<times> 'w state" where
  "SeekAll R e selector =
     seq (findElements R e selector) (\<lambda>(v, err). case err of
       Some err \<Rightarrow> ret []
     | None \<Rightarrow> ret v)"

definition getNode :: "'w Remote \<Rightarrow> addr \<Rightarrow> 'w state \<Rightarrow> (Node option \<times> error option) outcome \<times> 'w state" where
  "getNode R e =
     seq (deref e) (\<lambda>el.
       seq (lift (blockingSend R (DOM_describeNode (ID el)))) (\<lambda>(msg, err). case err of
         Some err \<Rightarrow> ret (None, Some err)
       | None \<Rightarrow>
           (case unmarshal R msg of
              Some err \<Rightarrow> ret (None, Some err)
            | None \<Rightarrow> ret (node_of msg, None))))"

definition Focus :: "'w Remote \<Rightarrow> addr \<Rightarrow> 'w state \<Rightarrow> error option outcome \<times> 'w state" where
  "Focus R e =
     seq (deref e) (\<lambda>el.
       seq (lift (blockingSend R (DOM_focus (ID el)))) (\<lambda>(msg, err). ret err))"



text \<open>The \<open>float64\<close> value \<open>-1\<close>.\<close>

definition float64_minus_one :: float64 where
  "float64_minus_one = 0xBFF0000000000000"

definition clickablePoint :: "'w Remote \<Rightarrow> addr \<Rightarrow> 'w state \<Rightarrow> (float64 \<times> float64 \<times> error option) outcome \<times> 'w state" where
  "clickablePoint R e =
     seq (deref e) (\<lambda>el.
       seq (lift (getContentQuads R (ID el) True)) (\<lambda>(r, err). case err of
         Some err \<Rightarrow> ret (float64_minus_one, float64_minus_one, Some err)
       | None \<Rightarrow> (case Middle R r of (x, y) \<Rightarrow> ret (x, y, None))))"

definition Click :: "'w Remote \<Rightarrow> addr \<Rightarrow> 'w state \<Rightarrow> error option outcome \<times> 'w state" where
  "Click R e =
     seq (call R e atom_ScrollIntoView []) (\<lambda>(ignored, err). case err of
       Some err \<Rightarrow> ret (Some err)
     | None \<Rightarrow>
    seq (clickablePoint R e) (\<lambda>(x, y, err). case err of
       Some err \<Rightarrow> ret (Some err)
     | None \<Rightarrow>
    seq (call R e atom_PreventMissClick []) (\<lambda>(ignored, err). case err of
       Some err \<Rightarrow> ret (Some err)
     | None \<Rightarrow>
    seq (lift (dispatchMouseEvent R x y dispatchMouseEventMoved ''none'')) (\<lambda>ignored.
    seq (lift (dispatchMouseEvent R x y dispatchMouseEventPressed ''left'')) (\<lambda>ignored.
    seq (lift (dispatchMouseEvent R x y dispatchMouseEventReleased ''left'')) (\<lambda>ignored.
    seq (call R e atom_IsClickHit []) (\<lambda>(hit, err).
      if err = None
      then (case hit of
              None \<Rightarrow> raise NilDereference
            | Some hit \<Rightarrow>
                if Bool R hit then ret None
                else ret (Some ErrElementMissClick))
      else if err = Some ErrCannotFindContext \<or> err = Some ErrSessionClosed then ret None
      else ret (Some ErrElementMissClick))))))))"


definition IsVisible :: "'w Remote \<Rightarrow> addr \<Rightarrow> 'w state \<Rightarrow> (bool \<times> error option) outcome \<times> 'w state" where
  "IsVisible R e =
     seq (clickablePoint R e) (\<lambda>(x, y, err). case err of
       Some err \<Rightarrow>
         if err = ErrElementInvisible then ret (False, None)
         else ret (False, Some err)
     | None \<Rightarrow>
         seq (call R e atom_IsVisible []) (\<lambda>(vis, err).
           if err \<noteq> None then ret (False, None)
           else (case vis of
                   None \<Rightarrow> raise NilDereference
                 | Some vis \<Rightarrow>
                     if \<not> Bool R vis then ret (False, None)
                     else ret (True, None))))"

definition Hover :: "'w Remote \<Rightarrow> addr \<Rightarrow> 'w state \<Rightarrow> error option outcome \<times> 'w state" where
  "Hover R e =
     seq (call R e atom_ScrollIntoView []) (\<lambda>(ignored, err). case err of
       Some err \<Rightarrow> ret (Some err)
     | None \<Rightarrow>
    seq (clickablePoint R e) (\<lambda>(x, y, err). case err of
       Some err \<Rightarrow> ret (Some err)
     | None \<Rightarrow>
    seq (lift (MouseMove R x y)) (\<lambda>err. case err of
       Some err \<Rightarrow> ret (Some err)
     | None \<Rightarrow> ret None)))"

definition Clear :: "'w Remote \<Rightarrow> addr \<Rightarrow> 'w state \<Rightarrow> error option outcome \<times> 'w state" where
  "Clear R e =
     seq (Focus R e) (\<lambda>err. case err of
       Some err \<Rightarrow> ret (Some err)
     | None \<Rightarrow> seq (call R e atom_ClearInput []) (\<lambda>(ignored, err). ret err))"

text \<open>
  \<open>Type\<close>: the variadic \<open>key\<close> is a slice that may be \<open>nil\<close> (no trailing keys were
  passed), which is \<open>None\<close>; the source tests \<open>key != nil\<close>, not its length.
\<close>

definition Type' :: "'w Remote \<Rightarrow> addr \<Rightarrow> string \<Rightarrow> 32 word list option \<Rightarrow> 'w state \<Rightarrow> error option outcome \<times> 'w state" where
  "Type' R e text key =
     seq (call R e atom_IsVisible []) (\<lambda>(enable, err).
       if err \<noteq> None then ret (Some ErrElementNotFocusable)
       else (case enable of
               None \<Rightarrow> raise NilDereference
             | Some enable \<Rightarrow>
                 if \<not> Bool R enable then ret (Some ErrElementNotFocusable)
                 else
    seq (Clear R e) (\<lambda>err. case err of
       Some err \<Rightarrow> ret (Some err)
     | None \<Rightarrow>
    seq (pause 200) (\<lambda>u.
    seq (call R e atom_DispatchEvents [ArgStrings [''keydown'']]) (\<lambda>(ignored, err). case err of
       Some err \<Rightarrow> ret (Some err)
     | None \<Rightarrow>
    seq (lift (insertText R text)) (\<lambda>err. case err of
       Some err \<Rightarrow> ret (Some err)
     | None \<Rightarrow>
    seq (call R e atom_DispatchEvents [ArgStrings [''keypress'', ''input'', ''keyup'', ''change'']])
      (\<lambda>(ignored, err). case err of
       Some err \<Rightarrow> ret (Some err)
     | None \<Rightarrow>
         (case key of
            Some keys \<Rightarrow> seq (pause 200) (\<lambda>u. lift (SendKeys R keys))
          | None \<Rightarrow> ret None))))))))"

definition string' :: "'w Remote \<Rightarrow> addr \<Rightarrow> functionDeclaration \<Rightarrow> arg list \<Rightarrow> 'w state \<Rightarrow> (string \<times> error option) outcome \<times> 'w state" where
  "string' R e functionDeclaration args =
     seq (call R e functionDeclaration args) (\<lambda>(res, err). case err of
       Some err \<Rightarrow> ret ('''', Some err)
     | None \<Rightarrow>
         (case res of
            None \<Rightarrow> raise NilDereference
          | Some res \<Rightarrow>
              if Type res \<noteq> ''string'' then ret ('''', Some ErrInvalidString)
              else (case Value res of
                      VString v \<Rightarrow> ret (v, None)
                    | other \<Rightarrow> raise TypeAssertion)))"

definition GetText :: "'w Remote \<Rightarrow> addr \<Rightarrow> 'w state \<Rightarrow> (string \<times> error option) outcome \<times> 'w state" where
  "GetText R e = string' R e atom_GetInnerText []"

definition SetAttr :: "'w Remote \<Rightarrow> addr \<Rightarrow> string \<Rightarrow> string \<Rightarrow> 'w state \<Rightarrow> error option outcome \<times> 'w state" where
  "SetAttr R e attr val =
     seq (call R e atom_SetAttr [ArgString attr, ArgString val]) (\<lambda>(ignored, err). ret err)"

definition GetAttr :: "'w Remote \<Rightarrow> addr \<Rightarrow> string \<Rightarrow> 'w state \<Rightarrow> (string \<times> error option) outcome \<times> 'w state" where
  "GetAttr R e attr = string' R e atom_GetAttr [ArgString attr]"


definition GetComputedStyle :: "'w Remote \<Rightarrow> addr \<Rightarrow> string \<Rightarrow> 'w state \<Rightarrow> (string \<times> error option) outcome \<times> 'w state" where
  "GetComputedStyle R e style = string' R e atom_GetComputedStyle [ArgString style]"

text \<open>The loop of \<open>GetSelected\<close> over the property descriptors.\<close>

fun selected_options :: "PropertyDescriptor list \<Rightarrow> string list \<Rightarrow> string list outcome" where
  "selected_options [] options = Ret options"
| "selected_options (d # ds) options =
     (if \<not> Enumerable d then selected_options ds options
      else (case propValue d of
              None \<Rightarrow> Panic NilDereference
            | Some v \<Rightarrow>
                (case Value v of
                   VString str \<Rightarrow> selected_options ds (options @ [str])
                 | other \<Rightarrow> Panic TypeAssertion)))"

definition GetSelected :: "'w Remote \<Rightarrow> addr \<Rightarrow> bool \<Rightarrow> 'w state \<Rightarrow> (string list \<times> error option) outcome \<times> 'w state" where
  "GetSelected R e selectedText =
     (let a = (if selectedText then atom_GetSelectedText else atom_GetSelected)
      in seq (call R e a []) (\<lambda>(ro, err). case err of
           Some err \<Rightarrow> ret ([], Some err)
         | None \<Rightarrow>
             (case ro of
                None \<Rightarrow> raise NilDereference
              | Some ro \<Rightarrow>
                  seq (lift (getProperties R (ObjectID ro))) (\<lambda>(descriptor, err). case err of
                    Some err \<Rightarrow> ret ([], Some err)
                  | None \<Rightarrow>
                      (case selected_options descriptor [] of
                         Panic p \<Rightarrow> raise p
                       | Ret options \<Rightarrow> ret (options, None))))))"

definition Select :: "'w Remote \<Rightarrow> addr \<Rightarrow> string list \<Rightarrow> 'w state \<Rightarrow> error option outcome \<times> 'w state" where
  "Select R e values =
     seq (getNode R e) (\<lambda>(node, err). case err of
       Some err \<Rightarrow> ret (Some err)
     | None \<Rightarrow>
         (case node of
            None \<Rightarrow> raise NilDereference
          | Some node \<Rightarrow>
              if ''SELECT'' \<noteq> NodeName node then ret (Some ErrInvalidElementSelect)
              else
    seq (call R e atom_SelectHasOptions [ArgStrings values]) (\<lambda>(has, err).
      case has of
        None \<Rightarrow> raise NilDereference
      | Some has \<Rightarrow>
          if \<not> Bool R has then ret (Some ErrInvalidElementOption)
          else seq (call R e atom_Select [ArgStrings values]) (\<lambda>(ignored, err). ret err))))"

definition Checkbox :: "'w Remote \<Rightarrow> addr \<Rightarrow> bool \<Rightarrow> 'w state \<Rightarrow> error option outcome \<times> 'w state" where
  "Checkbox R e check =
     seq (call R e atom_CheckBox [ArgBool check]) (\<lambda>(ignored, err). case err of
       Some err \<Rightarrow> ret (Some err)
     | None \<Rightarrow>
    seq (pause 250) (\<lambda>u.
    seq (call R e atom_DispatchEvents [ArgStrings [''click'', ''change'']]) (\<lambda>(ignored, err). case err of
       Some err \<Rightarrow> ret (Some err)
     | None \<Rightarrow> ret None)))"

definition IsChecked :: "'w Remote \<Rightarrow> addr \<Rightarrow> 'w state \<Rightarrow> (bool \<times> error option) outcome \<times> 'w state" where
  "IsChecked R e =
     seq (call R e atom_IsChecked []) (\<lambda>(checked, err).
       case checked of
         None \<Rightarrow> raise NilDereference
       | Some checked \<Rightarrow> ret (Bool R checked, err))"


text \<open>
  \<open>Expect\<close>: the callback handed to the retry primitive is one attempt, and an error of
  the retry primitive is a panic.
\<close>

definition Expect_attempt :: "'w Remote \<Rightarrow> addr \<Rightarrow> string \<Rightarrow> bool \<Rightarrow> 'w state \<Rightarrow> (addr option \<times> error option) outcome \<times> 'w state" where
  "Expect_attempt R e selector visible =
     seq (Seek R e selector) (\<lambda>(new, err). case err of
       Some err \<Rightarrow> ret (None, Some err)
     | None \<Rightarrow>
         if visible
         then (case new of
                 None \<Rightarrow> raise NilDereference
               | Some new' \<Rightarrow>
                   seq (IsVisible R new') (\<lambda>(v, err). case err of
                     Some err \<Rightarrow> ret (None, Some err)
                   | None \<Rightarrow>
                       if \<not> v then ret (None, Some ErrElementInvisible)
                       else ret (new, None)))
         else ret (new, None))"

definition Expect :: "'w Remote \<Rightarrow> addr \<Rightarrow> string \<Rightarrow> bool \<Rightarrow> 'w state \<Rightarrow> addr outcome \<times> 'w state" where
  "Expect R e selector visible s =
     (case Ticker (polls R) (Expect_attempt R e selector visible) s of
        (Panic p, s') \<Rightarrow> (Panic p, s')
      | (Ret (el, Some err), s') \<Rightarrow> (Panic (PanicError err), s')
      | (Ret (None, None), s') \<Rightarrow> (Panic TypeAssertion, s')
      | (Ret (Some el, None), s') \<Rightarrow> (Ret el, s'))"

text \<open>The requests made between two states, with their errors.\<close>

definition since :: "'w state \<Rightarrow> 'w state \<Rightarrow> (request \<times> error option) list" where
  "since s s' = drop (length (trace s)) (trace s')"

subsection \<open>Subtrees of the store\<close>

text \<open>
  The children of each handle, which is all of the store that the walk of \<open>detach\<close>
  follows. \<open>finite_subtree k e\<close>: the pointers below \<open>e\<close> form a finite tree, as they do
  in every store built by \<open>newElement\<close>, where a child is newer than its parent.
  \<open>reaches k e d\<close>: \<open>d\<close> is \<open>e\<close> or a descendant of \<open>e\<close>.
\<close>

definition kids :: "(addr \<rightharpoonup> element) \<Rightarrow> addr \<Rightarrow> addr list option" where
  "kids h e = map_option childs (h e)"

inductive finite_subtree :: "(addr \<Rightarrow> addr list option) \<Rightarrow> addr \<Rightarrow> bool" for k where
  "k e = Some cs \<Longrightarrow> (\<forall>c\<in>set cs. finite_subtree k c) \<Longrightarrow> finite_subtree k e"

inductive reaches :: "(addr \<Rightarrow> addr list option) \<Rightarrow> addr \<Rightarrow> addr \<Rightarrow> bool" for k where
  self: "reaches k e e"
| child: "k e = Some cs \<Longrightarrow> c \<in> set cs \<Longrightarrow> reaches k c d \<Longrightarrow> reaches k e d"

definition mark :: "addr set \<Rightarrow> (addr \<rightharpoonup> element) \<Rightarrow> (addr \<rightharpoonup> element)" where
  "mark D h = (\<lambda>d. if d \<in> D then map_option (\<lambda>el. el\<lparr>detached := 1\<rparr>) (h d) else h d)"

subsection \<open>Remote sides and stores for concrete runs\<close>

definition document_object :: RemoteObject where
  "document_object = \<lparr>Type = ''object'', Subtype = ''node'', ObjectID = ''doc-2'',
     Description = ''#document'', Value = VNull\<rparr>"

definition node_object :: RemoteObject where
  "node_object = \<lparr>Type = ''object'', Subtype = ''node'', ObjectID = ''node-7'',
     Description = ''div#main'', Value = VNull\<rparr>"

definition true_object :: RemoteObject where
  "true_object = \<lparr>Type = ''boolean'', Subtype = '''', ObjectID = '''',
     Description = ''true'', Value = VBool True\<rparr>"

text \<open>
  The coordinates of the concrete runs are the \<open>float64\<close> values \<open>0\<close>, \<open>5\<close> and \<open>10\<close>;
  \<open>run_sub\<close> is the subtraction on the pairs of \<open>0\<close> and \<open>10\<close> that a rectangle of these
  runs needs (\<open>a - 0\<close>, \<open>a - a\<close> and \<open>0 - b\<close>, which flips the sign bit), and is not a number
  elsewhere.
\<close>

definition float64_five :: float64 where
  "float64_five = 0x4014000000000000"

definition float64_ten :: float64 where
  "float64_ten = 0x4024000000000000"

definition run_sub :: "float64 \<Rightarrow> float64 \<Rightarrow> float64" where
  "run_sub a b =
     (if b = 0 then a
      else if a = b then 0
      else if a = 0 then b XOR 0x8000000000000000
      else 0x7FF8000000000000)"

fun is_true :: "RemoteObject \<Rightarrow> bool" where
  "is_true ro = (Type ro = ''boolean'' \<and> Value ro = VBool True)"

text \<open>
  \<open>live_remote\<close> answers every request without an error: the document for an
  evaluation, a node for the two queries, \<open>true\<close> for every other function call.
  \<open>closed_remote\<close> fails every request with the session-closed error. The state of
  both counts the requests.
\<close>

fun live_answer :: "request \<Rightarrow> nat \<Rightarrow> (reply \<times> error option) \<times> nat" where
  "live_answer (Runtime_evaluate expression ctx async) n = ((ReplyObject (Some document_object), None), Suc n)"
| "live_answer (Runtime_callFunctionOn objectID atom_Query args) n = ((ReplyObject (Some node_object), None), Suc n)"
| "live_answer (Runtime_callFunctionOn objectID atom_QueryAll args) n = ((ReplyObject (Some node_object), None), Suc n)"
| "live_answer (Runtime_callFunctionOn objectID f args) n = ((ReplyObject (Some true_object), None), Suc n)"
| "live_answer (DOM_getContentQuads objectID c) n = ((ReplyQuad [(0, 0), (float64_ten, 0), (float64_ten, float64_ten), (0, float64_ten)], None), Suc n)"
| "live_answer req n = ((ReplyNone, None), Suc n)"

definition live_remote :: "nat Remote" where
  "live_remote = \<lparr>answer = live_answer, getContextID = (\<lambda>n. 1), unmarshal = (\<lambda>rep. None),
     Bool = is_true, Middle = (\<lambda>q. (float64_five, float64_five)),
     float64_sub = run_sub, polls = 3\<rparr>"

definition closed_remote :: "nat Remote" where
  "closed_remote = \<lparr>answer = (\<lambda>req n. ((ReplyNone, Some ErrSessionClosed), Suc n)),
     getContextID = (\<lambda>n. 1), unmarshal = (\<lambda>rep. None),
     Bool = is_true, Middle = (\<lambda>q. (float64_five, float64_five)),
     float64_sub = run_sub, polls = 3\<rparr>"

text \<open>
  A store with the document root at \<open>0\<close>, its child at \<open>1\<close> and a grandchild at \<open>2\<close>;
  \<open>detached_store\<close> is the same store with every handle detached.
\<close>

definition family_store :: "64 word \<Rightarrow> nat state" where
  "family_store flag = \<lparr>heap = [0 \<mapsto> \<lparr>ID = ''doc-1'', description = ''#document'', parent = None,
                                   childs = [1], detached = flag\<rparr>,
                            1 \<mapsto> \<lparr>ID = ''node-3'', description = ''form'', parent = Some 0,
                                   childs = [2], detached = flag\<rparr>,
                            2 \<mapsto> \<lparr>ID = ''node-4'', description = ''input'', parent = Some 1,
                                   childs = [], detached = flag\<rparr>],
                     nxt = 3, world = 0, trace = []\<rparr>"

text \<open>
  \<open>select_remote\<close> describes every node as a \<open>SELECT\<close> element, answers the query for
  all matches with no object and no error, and fails every other request with the
  session-closed error.
\<close>

fun select_answer :: "request \<Rightarrow> nat \<Rightarrow> (reply \<times> error option) \<times> nat" where
  "select_answer (DOM_describeNode objectID) n = ((ReplyNode (Some \<lparr>NodeName = ''SELECT'', FrameID = ''''\<rparr>), None), Suc n)"
| "select_answer (Runtime_callFunctionOn objectID atom_QueryAll args) n = ((ReplyObject None, None), Suc n)"
| "select_answer req n = ((ReplyNone, Some ErrSessionClosed), Suc n)"

definition select_remote :: "nat Remote" where
  "select_remote = \<lparr>answer = select_answer, getContextID = (\<lambda>n. 1), unmarshal = (\<lambda>rep. None),
     Bool = is_true, Middle = (\<lambda>q. (float64_five, float64_five)),
     float64_sub = run_sub, polls = 3\<rparr>"

fun is_evaluate :: "request \<times> error option \<Rightarrow> bool" where
  "is_evaluate (Runtime_evaluate expression ctx async, err) = True"
| "is_evaluate other = False"





text \<open>
  The shape of a store that \<open>newElement\<close> has built: every handle is older than the next
  address, and every child is a handle of the store that is newer than its parent.
\<close>

definition built :: "'w state \<Rightarrow> bool" where
  "built s \<longleftrightarrow>
     (\<forall>a el. heap s a = Some el \<longrightarrow>
        a < nxt s \<and> (\<forall>c\<in>set (childs el). a < c \<and> c < nxt s \<and> heap s c \<noteq> None))"

subsection \<open>Errors on the way of an operation\<close>

text \<open>
  \<open>failed\<close>: a request that came back with an error. \<open>raced\<close>: it came back with one
  of the two errors that \<open>Click\<close> tolerates, the destroyed execution context and the
  closed session.
\<close>

definition failed :: "request \<times> error option \<Rightarrow> bool" where
  "failed ev \<longleftrightarrow> snd ev \<noteq> None"


text \<open>
  \<open>clean P m\<close>: whenever \<open>m\<close> returns a result that \<open>P\<close> accepts, none of the requests it
  made has failed. \<open>refuses P m\<close>: \<open>m\<close> never returns a result that \<open>P\<close> accepts.
  \<open>always I m\<close>: every result \<open>m\<close> returns satisfies \<open>I\<close>.
\<close>

definition clean :: "('a \<Rightarrow> bool) \<Rightarrow> ('w state \<Rightarrow> 'a outcome \<times> 'w state) \<Rightarrow> bool" where
  "clean P m \<longleftrightarrow>
     (\<forall>s x s'. m s = (Ret x, s') \<longrightarrow> P x \<longrightarrow> (\<exists>new. trace s' = trace s @ new \<and> \<not> list_ex failed new))"


definition always :: "('a \<Rightarrow> bool) \<Rightarrow> ('s \<Rightarrow> 'a outcome \<times> 's) \<Rightarrow> bool" where
  "always I m \<longleftrightarrow> (\<forall>s x s'. m s = (Ret x, s') \<longrightarrow> I x)"



subsection \<open>A handle that has been re-resolved\<close>

text \<open>
  \<open>document_request\<close> is the re-resolution of the root: the evaluation of \<open>document\<close>
  in the current top-level execution context of the session.

  \<open>settled e i s\<close>: the handle \<open>e\<close> is in the store with the identifier \<open>i\<close> and is not
  detached, and the addresses from the next one on are free. \<open>steady e i m\<close>: run from
  such a state, \<open>m\<close> ends in such a state and makes no re-resolution. \<open>leads e i f a m\<close>:
  moreover the first request of \<open>m\<close> is the call of \<open>f\<close> with the arguments \<open>a\<close> on \<open>i\<close>.
\<close>

definition document_request :: "'w Remote \<Rightarrow> 'w state \<Rightarrow> request" where
  "document_request R s = Runtime_evaluate ''document'' (getContextID R (world s)) False"

definition settled :: "addr \<Rightarrow> string \<Rightarrow> 'w state \<Rightarrow> bool" where
  "settled e i s \<longleftrightarrow>
     (\<exists>el. heap s e = Some el \<and> \<not> isDetached el \<and> ID el = i) \<and> (\<forall>a. nxt s \<le> a \<longrightarrow> heap s a = None)"

definition steady :: "addr \<Rightarrow> string \<Rightarrow> ('w state \<Rightarrow> 'a outcome \<times> 'w state) \<Rightarrow> bool" where
  "steady e i m \<longleftrightarrow>
     (\<forall>s r s'. settled e i s \<longrightarrow> m s = (r, s') \<longrightarrow>
        settled e i s' \<and> (\<exists>new. trace s' = trace s @ new \<and> \<not> list_ex is_evaluate new))"

definition leads :: "addr \<Rightarrow> string \<Rightarrow> functionDeclaration \<Rightarrow> arg list \<Rightarrow> ('w state \<Rightarrow> 'a outcome \<times> 'w state) \<Rightarrow> bool" where
  "leads e i f a m \<longleftrightarrow>
     (\<forall>s r s'. settled e i s \<longrightarrow> m s = (r, s') \<longrightarrow>
        settled e i s' \<and>
        (\<exists>err rest. trace s' = trace s @ (Runtime_callFunctionOn i f a, err) # rest
                     \<and> \<not> list_ex is_evaluate rest))"

text \<open>
  \<open>healed R s i f a e s'\<close>, of the states before and after an operation on the handle
  \<open>e\<close>: the first request made is the re-resolution, and it succeeded; the second is the
  call of \<open>f\<close> with the arguments \<open>a\<close> on the identifier \<open>i\<close>; no later request is a
  re-resolution, so exactly one was made; afterward the handle has the identifier \<open>i\<close>
  and is not detached. \<open>unhealed R s err s'\<close>: the only request made is the
  re-resolution, which came back with \<open>err\<close>, and the store is as it was.
\<close>

definition healed :: "'w Remote \<Rightarrow> 'w state \<Rightarrow> string \<Rightarrow> functionDeclaration \<Rightarrow> arg list \<Rightarrow> addr \<Rightarrow> 'w state \<Rightarrow> bool" where
  "healed R s i f a e s' \<longleftrightarrow>
     (\<exists>err rest. since s s' = (document_request R s, None) # (Runtime_callFunctionOn i f a, err) # rest
                  \<and> \<not> list_ex is_evaluate rest)
     \<and> length (filter is_evaluate (since s s')) = 1
     \<and> map_option ID (heap s' e) = Some i
     \<and> map_option isDetached (heap s' e) = Some False"

definition unhealed :: "'w Remote \<Rightarrow> 'w state \<Rightarrow> error option \<Rightarrow> 'w state \<Rightarrow> bool" where
  "unhealed R s err s' \<longleftrightarrow> since s s' = [(document_request R s, err)] \<and> heap s' = heap s"







section \<open>Properties of the observable\<close>

lemma Notify_invoked:
  "fst (Notify obs e v s) = map (\<lambda>ob. (ob, v)) (filter (\<lambda>ob. receives ob e) obs)"
  by (induction obs arbitrary: s) (simp_all add: receives_def split_beta)

lemma Notify_world:
  "snd (Notify obs e v s) = fold (\<lambda>ob. obs_Notify ob v) (filter (\<lambda>ob. receives ob e) obs) s"
  by (induction obs arbitrary: s) (simp_all add: receives_def split_beta)

lemma Unregister_from_absent:
  "(\<And>i. n \<le> i \<Longrightarrow> i < length xs \<Longrightarrow> obs_ID (xs ! i) \<noteq> obs_ID val) \<Longrightarrow> Unregister_from n xs val = xs"
proof (induction n xs val rule: Unregister_from.induct)
  case (1 n observers val)
  show ?case
  proof (cases "n < length observers")
    case True
    with "1.prems" have ne: "obs_ID (observers ! n) \<noteq> obs_ID val" by simp
    have "Unregister_from (Suc n) observers val = observers"
      using "1.IH" [OF True ne] "1.prems" by simp
    with True ne show ?thesis by simp
  next
    case False
    then show ?thesis by simp
  qed
qed

lemma Unregister_from_first:
  "k < length xs \<Longrightarrow> obs_ID (xs ! k) = obs_ID val \<Longrightarrow> n \<le> k \<Longrightarrow>
   (\<And>i. n \<le> i \<Longrightarrow> i < k \<Longrightarrow> obs_ID (xs ! i) \<noteq> obs_ID val) \<Longrightarrow>
   Unregister_from n xs val = take (length xs - 1) (xs[k := xs ! (length xs - 1)])"
proof (induction n xs val rule: Unregister_from.induct)
  case (1 n observers val)
  have n_lt: "n < length observers" using "1.prems" by simp
  show ?case
  proof (cases "n = k")
    case True
    with "1.prems" n_lt show ?thesis by (simp add: Let_def)
  next
    case False
    with "1.prems" have lt: "n < k" by simp
    then have ne: "obs_ID (observers ! n) \<noteq> obs_ID val" using "1.prems" by simp
    have "Unregister_from (Suc n) observers val
            = take (length observers - 1) (observers[k := observers ! (length observers - 1)])"
      using "1.IH" [OF n_lt ne] "1.prems" lt by simp
    with n_lt ne show ?thesis by simp
  qed
qed

lemma Unregister_absent:
  "\<forall>ob\<in>set xs. obs_ID ob \<noteq> obs_ID val \<Longrightarrow> Unregister xs val = xs"
  unfolding Unregister_def by (rule Unregister_from_absent) simp

lemma swap_with_last:
  "take (length (pre @ x # post) - 1) ((pre @ x # post)[length pre := (pre @ x # post) ! (length (pre @ x # post) - 1)])
     = (if post = [] then pre else pre @ last post # butlast post)"
proof (cases "post = []")
  case True
  then show ?thesis by simp
next
  case False
  then have "(pre @ x # post) ! (length (pre @ x # post) - 1) = last post"
    by (simp add: nth_append last_conv_nth)
  moreover have "take (length post) (last post # post) = last post # butlast post"
    using False by (cases post) (simp_all add: butlast_conv_take)
  ultimately show ?thesis
    using False by (simp add: list_update_append)
qed

lemma Unregister_first:
  assumes "\<forall>ob\<in>set pre. obs_ID ob \<noteq> obs_ID val" and "obs_ID x = obs_ID val"
  shows "Unregister (pre @ x # post) val = (if post = [] then pre else pre @ last post # butlast post)"
proof -
  have "Unregister_from 0 (pre @ x # post) val
          = take (length (pre @ x # post) - 1)
              ((pre @ x # post)[length pre := (pre @ x # post) ! (length (pre @ x # post) - 1)])"
  proof (rule Unregister_from_first)
    fix i assume "i < length pre"
    then show "obs_ID ((pre @ x # post) ! i) \<noteq> obs_ID val"
      using assms(1) by (simp add: nth_append)
  qed (use assms(2) in simp_all)
  then show ?thesis unfolding Unregister_def by (simp only: swap_with_last)
qed

lemma foldl_Register:
  "list_all is_Reg ops \<Longrightarrow> foldl apply_op acc ops = acc @ map op_observer ops"
proof (induction ops arbitrary: acc)
  case Nil
  then show ?case by simp
next
  case (Cons a ops)
  then show ?case by (cases a) (simp_all add: Register_def)
qed

lemma foldl_registration:
  "list_all is_Reg ops \<Longrightarrow> foldl registration_step acc ops = acc @ map op_observer ops"
proof (induction ops arbitrary: acc)
  case Nil
  then show ?case by simp
next
  case (Cons a ops)
  then show ?case by (cases a) simp_all
qed

text \<open>
  C3: for every registered observer with filter \<open>f\<close> and every \<open>Notify\<close> with event
  name \<open>e\<close> and value \<open>v\<close>, the observer's callback is invoked with \<open>v\<close> if and
  only if \<open>f = "*"\<close> or \<open>e = ""\<close> or \<open>f = e\<close>. The invocations are exactly those of
  the observers that pass the filter, each with \<open>v\<close>; the world after \<open>Notify\<close> is the
  world before it with exactly these callbacks applied to \<open>v\<close>, one after the other in
  the order of the list, so no other callback has run and none of these was left out.
\<close>

theorem Notify_delivery_filter:
  "fst (Notify obs e v s) = map (\<lambda>ob. (ob, v)) (filter (\<lambda>ob. obs_Event ob = ''*'' \<or> e = '''' \<or> obs_Event ob = e) obs)
   \<and> snd (Notify obs e v s)
       = fold (\<lambda>ob. obs_Notify ob v) (filter (\<lambda>ob. obs_Event ob = ''*'' \<or> e = '''' \<or> obs_Event ob = e) obs) s
   \<and> (\<forall>ob\<in>set obs. (ob, v) \<in> set (fst (Notify obs e v s)) \<longleftrightarrow> (obs_Event ob = ''*'' \<or> e = '''' \<or> obs_Event ob = e))
   \<and> (\<forall>c\<in>set (fst (Notify obs e v s)). snd c = v \<and> fst c \<in> set obs)"
  by (auto simp: Notify_invoked Notify_world receives_def)

theorem Notify_delivery_filter_witness:
  "map (obs_ID \<circ> fst) (fst (Notify [logging_observer ''a'' ''*'', logging_observer ''b'' ''load'', logging_observer ''c'' ''close'']
      ''load'' \<lparr>Method = ''load'', Params = []\<rparr> [])) = [''a'', ''b'']
   \<and> snd (Notify [logging_observer ''a'' ''*'', logging_observer ''b'' ''load'', logging_observer ''c'' ''close'']
      ''load'' \<lparr>Method = ''load'', Params = []\<rparr> []) = [''a'', ''b'']
   \<and> snd (Notify [logging_observer ''a'' ''*'', logging_observer ''b'' ''load'', logging_observer ''c'' ''close'']
      [] \<lparr>Method = ''close'', Params = []\<rparr> []) = [''a'', ''b'', ''c'']"
  using Notify_delivery_filter [of "[logging_observer ''a'' ''*'', logging_observer ''b'' ''load'', logging_observer ''c'' ''close'']"
      "''load''" "\<lparr>Method = ''load'', Params = []\<rparr>" "[]"]
    Notify_delivery_filter [of "[logging_observer ''a'' ''*'', logging_observer ''b'' ''load'', logging_observer ''c'' ''close'']"
      "[]" "\<lparr>Method = ''close'', Params = []\<rparr>" "[]"]
  by (simp add: logging_observer_def)

text \<open>
  C6, as stated, fails: after registering \<open>a\<close>, \<open>b\<close>, \<open>c\<close> and unregistering
  \<open>a\<close>, the last entry \<open>c\<close> sits in the place of \<open>a\<close>, and \<open>Notify\<close> calls \<open>c\<close>
  before \<open>b\<close>, while \<open>b\<close> was registered before \<open>c\<close>.
\<close>

theorem Notify_order_counterexample:
  "map obs_ID (map fst (fst (Notify
      (run_ops [Reg (logging_observer ''a'' ''*''), Reg (logging_observer ''b'' ''*''),
                Reg (logging_observer ''c'' ''*''), Unreg (logging_observer ''a'' ''*'')])
      ''load'' \<lparr>Method = ''load'', Params = []\<rparr> []))) = [''c'', ''b'']
   \<and> snd (Notify
      (run_ops [Reg (logging_observer ''a'' ''*''), Reg (logging_observer ''b'' ''*''),
                Reg (logging_observer ''c'' ''*''), Unreg (logging_observer ''a'' ''*'')])
      ''load'' \<lparr>Method = ''load'', Params = []\<rparr> []) = [''c'', ''b'']
   \<and> map obs_ID (registration_order
       [Reg (logging_observer ''a'' ''*''), Reg (logging_observer ''b'' ''*''),
        Reg (logging_observer ''c'' ''*''), Unreg (logging_observer ''a'' ''*'')]) = [''b'', ''c'']"
  by (simp add: run_ops_def registration_order_def Register_def Unregister_def logging_observer_def)

text \<open>
  C6, amended: after every sequence of \<open>Register\<close> and \<open>Unregister\<close> operations,
  \<open>Notify\<close> delivers to the matching observers one after the other in the order of the
  observer list at that moment. \<open>Register\<close> appends to the list, so after registrations
  alone this is the registration order. \<open>Unregister\<close> leaves the list as it is when no
  entry has the identity, and otherwise puts the last entry of the list into the place of
  the first entry with that identity.
\<close>

theorem Notify_list_order:
  "fst (Notify (run_ops ops) e v s) = map (\<lambda>ob. (ob, v)) (filter (\<lambda>ob. receives ob e) (run_ops ops))
   \<and> snd (Notify (run_ops ops) e v s) = fold (\<lambda>ob. obs_Notify ob v) (filter (\<lambda>ob. receives ob e) (run_ops ops)) s
   \<and> (list_all is_Reg ops \<longrightarrow> run_ops ops = registration_order ops)
   \<and> run_ops (ops @ [Reg val]) = run_ops ops @ [val]
   \<and> ((\<forall>ob\<in>set (run_ops ops). obs_ID ob \<noteq> obs_ID val) \<longrightarrow> run_ops (ops @ [Unreg val]) = run_ops ops)
   \<and> (run_ops ops = pre @ x # post \<and> (\<forall>ob\<in>set pre. obs_ID ob \<noteq> obs_ID val) \<and> obs_ID x = obs_ID val
        \<longrightarrow> run_ops (ops @ [Unreg val]) = (if post = [] then pre else pre @ last post # butlast post))"
  by (simp add: Notify_invoked Notify_world run_ops_def registration_order_def foldl_Register
      foldl_registration Register_def Unregister_absent Unregister_first)

theorem Notify_list_order_witness:
  "map obs_ID (run_ops ([Reg (logging_observer ''a'' ''*''), Reg (logging_observer ''b'' ''*''),
                 Reg (logging_observer ''c'' ''*'')] @ [Unreg (logging_observer ''a'' ''*'')])) = [''c'', ''b'']
   \<and> list_all is_Reg [Reg (logging_observer ''a'' ''*''), Reg (logging_observer ''b'' ''*''),
                 Reg (logging_observer ''c'' ''*'')]
   \<and> map obs_ID (registration_order [Reg (logging_observer ''a'' ''*''), Reg (logging_observer ''b'' ''*''),
                 Reg (logging_observer ''c'' ''*'')]) = [''a'', ''b'', ''c'']"
proof -
  let ?ops = "[Reg (logging_observer ''a'' ''*''), Reg (logging_observer ''b'' ''*''),
               Reg (logging_observer ''c'' ''*'')]"
  have regs: "list_all is_Reg ?ops" by simp
  have now: "run_ops ?ops = [] @ logging_observer ''a'' ''*'' # [logging_observer ''b'' ''*'', logging_observer ''c'' ''*'']"
    by (simp add: run_ops_def Register_def)
  have order: "run_ops ?ops = registration_order ?ops"
    using Notify_list_order [of ?ops] regs by blast
  have "run_ops (?ops @ [Unreg (logging_observer ''a'' ''*'')])
          = [logging_observer ''c'' ''*'', logging_observer ''b'' ''*'']"
    using Notify_list_order [of ?ops _ _ _ "logging_observer ''a'' ''*''" "[]"
        "logging_observer ''a'' ''*''" "[logging_observer ''b'' ''*'', logging_observer ''c'' ''*'']"] now
    by simp
  then show ?thesis
    using regs order now by (simp add: logging_observer_def)
qed

section \<open>Properties of the browser context\<close>

lemma issued_issue [simp]: "issued (issue c b w) = issued b @ [c]"
  by (simp add: issue_def)

lemma remote_issue [simp]: "remote (issue c b w) = w"
  by (simp add: issue_def)

lemma enable_all_issued:
  "\<exists>rest. issued (snd (enable_all C cs b)) = issued b @ rest \<and> set rest \<subseteq> set cs"
proof (induction cs arbitrary: b)
  case Nil
  then show ?case by simp
next
  case (Cons c cs)
  show ?case
  proof (cases "sessionCall C c (remote b)")
    case (Pair err w)
    show ?thesis
    proof (cases err)
      case None
      from Cons.IH [of "issue c b w"] obtain rest
        where "issued (snd (enable_all C cs (issue c b w))) = issued (issue c b w) @ rest"
          and "set rest \<subseteq> set cs" by blast
      then have "issued (snd (enable_all C (c # cs) b)) = issued b @ (c # rest) \<and> set (c # rest) \<subseteq> set (c # cs)"
        using Pair None by auto
      then show ?thesis by blast
    next
      case (Some e)
      then have "issued (snd (enable_all C (c # cs) b)) = issued b @ [c] \<and> set [c] \<subseteq> set (c # cs)"
        using Pair by simp
      then show ?thesis by blast
    qed
  qed
qed

lemma runSession_issued:
  "\<exists>rest. issued (snd (runSession C t sd b)) = issued b @ rest \<and> \<not> list_ex is_createTarget rest"
proof -
  let ?cs = "[Page_enable sd, Runtime_enable sd, Runtime_addBinding sd (bindClick C),
              Page_setLifecycleEventsEnabled sd True, Target_setDiscoverTargets sd True,
              Network_enable sd (2 * 1024)]"
  let ?b1 = "b\<lparr>issued := issued b @ [Client_Register sd]\<rparr>"
  obtain rest where r: "issued (snd (enable_all C ?cs ?b1)) = issued ?b1 @ rest" "set rest \<subseteq> set ?cs"
    using enable_all_issued [of C ?cs ?b1] by blast
  have "\<not> list_ex is_createTarget rest"
    using r(2) by (auto simp: list_ex_iff)
  moreover obtain res b2 where e: "enable_all C ?cs ?b1 = (res, b2)"
    by (cases "enable_all C ?cs ?b1")
  moreover have "snd (runSession C t sd b) = b2"
    unfolding runSession_def Let_def e by (cases res) simp_all
  ultimately have "issued (snd (runSession C t sd b)) = issued b @ (Client_Register sd # rest)
     \<and> \<not> list_ex is_createTarget (Client_Register sd # rest)"
    using r(1) by simp
  then show ?thesis by blast
qed

lemma AttachPageTarget_issued:
  "\<exists>rest. issued (snd (AttachPageTarget C t b)) = issued b @ Target_attachToTarget t True # rest
      \<and> \<not> list_ex is_createTarget rest"
proof (cases "attachToTarget C t True (remote b)")
  case (Pair p w)
  obtain val err where p: "p = (val, err)" by (cases p)
  show ?thesis
  proof (cases err)
    case None
    obtain rest where "issued (snd (runSession C t val (issue (Target_attachToTarget t True) b w)))
         = issued (issue (Target_attachToTarget t True) b w) @ rest" "\<not> list_ex is_createTarget rest"
      using runSession_issued by blast
    then show ?thesis using Pair p None by (simp add: AttachPageTarget_def)
  next
    case (Some e)
    then show ?thesis using Pair p by (simp add: AttachPageTarget_def)
  qed
qed

text \<open>
  C5: for every target identifier, \<open>CloseTarget\<close> returns success when the close call
  succeeds and when it fails with the detached-from-target error; every other error of
  the close call is returned unchanged. One close call is issued.
\<close>

theorem CloseTarget_detached_is_success:
  "closeTarget C tgt (remote b) = (err, w) \<Longrightarrow>
     (err = None \<or> err = Some ErrDetachedFromTarget \<longrightarrow> fst (CloseTarget C tgt b) = None)
   \<and> (err \<noteq> Some ErrDetachedFromTarget \<longrightarrow> fst (CloseTarget C tgt b) = err)
   \<and> issued_since b (snd (CloseTarget C tgt b)) = [Target_closeTarget tgt]
   \<and> remote (snd (CloseTarget C tgt b)) = w"
  by (auto simp: CloseTarget_def issued_since_def)

text \<open>
  C8: \<open>CreatePageTarget url\<close> issues one create-target call. For the empty \<open>url\<close> it
  carries the blank-page URL, which is not empty, and never the empty string; a
  non-empty \<open>url\<close> is passed unchanged. When the creation succeeds the new target is
  attached: the next call is the attach call for the identifier the browser returned,
  and the result is that of \<open>AttachPageTarget\<close>. When it fails the error is returned and
  nothing else is issued.
\<close>

theorem CreatePageTarget_blank:
  assumes "Blank C \<noteq> ''''"
    and "createTarget C (if url = '''' then Blank C else url) (remote b) = ((r, err), w)"
  shows "(\<exists>rest. issued_since b (snd (CreatePageTarget C url b))
              = Target_createTarget (if url = '''' then Blank C else url) # rest
            \<and> \<not> list_ex is_createTarget rest)
       \<and> Target_createTarget '''' \<notin> set (issued_since b (snd (CreatePageTarget C url b)))
       \<and> (err = None \<longrightarrow>
            CreatePageTarget C url b
              = AttachPageTarget C r (issue (Target_createTarget (if url = '''' then Blank C else url)) b w)
          \<and> (\<exists>rest. issued_since b (snd (CreatePageTarget C url b))
              = Target_createTarget (if url = '''' then Blank C else url) # Target_attachToTarget r True # rest))
       \<and> (err \<noteq> None \<longrightarrow>
            fst (CreatePageTarget C url b) = (None, err)
          \<and> issued_since b (snd (CreatePageTarget C url b))
              = [Target_createTarget (if url = '''' then Blank C else url)])"
proof -
  let ?u = "if url = '''' then Blank C else url"
  let ?b1 = "issue (Target_createTarget ?u) b w"
  have u: "?u \<noteq> ''''" using assms(1) by simp
  show ?thesis
  proof (cases err)
    case None
    have eq: "CreatePageTarget C url b = AttachPageTarget C r ?b1"
      using assms(2) None by (simp add: CreatePageTarget_def Let_def)
    obtain rest where rest: "issued (snd (AttachPageTarget C r ?b1)) = issued ?b1 @ Target_attachToTarget r True # rest"
        "\<not> list_ex is_createTarget rest"
      using AttachPageTarget_issued by blast
    have since: "issued_since b (snd (CreatePageTarget C url b)) = Target_createTarget ?u # Target_attachToTarget r True # rest"
      using eq rest(1) by (simp add: issued_since_def)
    have no: "\<not> list_ex is_createTarget (Target_attachToTarget r True # rest)"
      using rest(2) by simp
    have "Target_createTarget '''' \<notin> set (issued_since b (snd (CreatePageTarget C url b)))"
      using since u rest(2) by (auto simp: list_ex_iff)
    then show ?thesis using None eq since no by blast
  next
    case (Some e)
    have res: "CreatePageTarget C url b = ((None, Some e), ?b1)"
      using assms(2) Some by (simp add: CreatePageTarget_def Let_def)
    then have since: "issued_since b (snd (CreatePageTarget C url b)) = [Target_createTarget ?u]"
      by (simp add: issued_since_def)
    have "Target_createTarget '''' \<notin> set (issued_since b (snd (CreatePageTarget C url b)))"
      using since u by auto
    then show ?thesis using Some res since by simp
  qed
qed

theorem CloseTarget_detached_is_success_witness:
  "fst (CloseTarget test_client ''gone'' \<lparr>remote = 0, issued = []\<rparr>) = None"
  using CloseTarget_detached_is_success [of test_client "''gone''" "\<lparr>remote = 0, issued = []\<rparr>" "Some ErrDetachedFromTarget" "Suc 0"]
  by (simp add: test_client_def)

theorem CreatePageTarget_blank_witness:
  "issued_since \<lparr>remote = 0, issued = []\<rparr> (snd (CreatePageTarget test_client '''' \<lparr>remote = 0, issued = []\<rparr>))
     = [Target_createTarget ''about:blank'', Target_attachToTarget ''Tabout:blank'' True,
        Client_Register ''STabout:blank'', Page_enable ''STabout:blank'', Runtime_enable ''STabout:blank'',
        Runtime_addBinding ''STabout:blank'' ''_on_click'', Page_setLifecycleEventsEnabled ''STabout:blank'' True,
        Target_setDiscoverTargets ''STabout:blank'' True, Network_enable ''STabout:blank'' 2048]"
proof -
  have b: "Blank test_client \<noteq> ''''" by (simp add: test_client_def)
  have c: "createTarget test_client (if '''' = '''' then Blank test_client else '''') (remote \<lparr>remote = 0, issued = []\<rparr>)
             = ((''Tabout:blank'', None), Suc 0)"
    by (simp add: test_client_def)
  have "CreatePageTarget test_client '''' \<lparr>remote = 0, issued = []\<rparr>
          = AttachPageTarget test_client ''Tabout:blank''
              (issue (Target_createTarget (if '''' = '''' then Blank test_client else '''')) \<lparr>remote = 0, issued = []\<rparr> (Suc 0))"
    using CreatePageTarget_blank [OF b c, THEN conjunct2, THEN conjunct2, THEN conjunct1] by simp
  then show ?thesis
    by (simp add: test_client_def AttachPageTarget_def runSession_def issue_def issued_since_def Let_def)
qed

section \<open>Properties of the element handles\<close>

subsection \<open>Release and detach\<close>

lemma kids_flag [simp]: "h e = Some el \<Longrightarrow> kids (h(e \<mapsto> el\<lparr>detached := v\<rparr>)) = kids h"
  by (auto simp: kids_def fun_eq_iff)

lemma kids_mark [simp]: "kids (mark D h) = kids h"
  by (auto simp: kids_def mark_def fun_eq_iff option.map_comp comp_def split: option.splits)

lemma mark_mark: "mark B (mark A h) = mark (A \<union> B) h"
  by (auto simp: mark_def fun_eq_iff option.map_comp comp_def split: option.splits)

lemma mark_single: "h e = Some el \<Longrightarrow> h(e \<mapsto> el\<lparr>detached := 1\<rparr>) = mark {e} h"
  by (auto simp: mark_def fun_eq_iff)

lemma mark_empty [simp]: "mark {} h = h"
  by (simp add: mark_def)

lemma reaches_unfold:
  "k e = Some cs \<Longrightarrow> {d. reaches k e d} = insert e (\<Union>c\<in>set cs. {d. reaches k c d})"
  by (auto intro: reaches.intros elim: reaches.cases)

lemma detach_walk_Inl:
  "detach_walk (Inl e) h =
     (case h e of None \<Rightarrow> Some (Panic NilDereference, h)
      | Some el \<Rightarrow> detach_walk (Inr (childs el)) (h(e \<mapsto> el\<lparr>detached := 1\<rparr>)))"
  by (subst detach_walk.simps) simp

lemma detach_walk_Nil: "detach_walk (Inr []) h = Some (Ret (), h)"
  by (subst detach_walk.simps) simp

lemma detach_walk_Cons:
  "detach_walk (Inr (c # cs)) h =
     Option.bind (detach_walk (Inl c) h)
       (\<lambda>r. case r of (Panic p, h') \<Rightarrow> Some (Panic p, h') | (Ret u, h') \<Rightarrow> detach_walk (Inr cs) h')"
  by (subst detach_walk.simps) simp

lemma detach_walk_children:
  assumes "\<forall>c\<in>set cs. \<forall>h. kids h = k \<longrightarrow> detach_walk (Inl c) h = Some (Ret (), mark {d. reaches k c d} h)"
    and "kids h = k"
  shows "detach_walk (Inr cs) h = Some (Ret (), mark (\<Union>c\<in>set cs. {d. reaches k c d}) h)"
  using assms
proof (induction cs arbitrary: h)
  case Nil
  then show ?case by (simp add: detach_walk_Nil)
next
  case (Cons c cs)
  have first: "detach_walk (Inl c) h = Some (Ret (), mark {d. reaches k c d} h)"
    using Cons.prems by simp
  have rest: "detach_walk (Inr cs) (mark {d. reaches k c d} h)
      = Some (Ret (), mark (\<Union>c\<in>set cs. {d. reaches k c d}) (mark {d. reaches k c d} h))"
    using Cons.prems by (intro Cons.IH) simp_all
  show ?case
    by (simp add: detach_walk_Cons first rest mark_mark)
qed

lemma detach_walk_subtree:
  "finite_subtree k e \<Longrightarrow> kids h = k \<Longrightarrow> detach_walk (Inl e) h = Some (Ret (), mark {d. reaches k e d} h)"
proof (induction arbitrary: h rule: finite_subtree.induct)
  case (1 e cs)
  from "1.prems" "1.hyps"(1) obtain el where el: "h e = Some el" "childs el = cs"
    by (auto simp: kids_def)
  let ?h1 = "h(e \<mapsto> el\<lparr>detached := 1\<rparr>)"
  have k1: "kids ?h1 = k" using el "1.prems" by simp
  have "detach_walk (Inr cs) ?h1 = Some (Ret (), mark (\<Union>c\<in>set cs. {d. reaches k c d}) ?h1)"
    using "1.IH" k1 by (intro detach_walk_children) auto
  moreover have "{d. reaches k e d} = insert e (\<Union>c\<in>set cs. {d. reaches k c d})"
    using "1.hyps"(1) by (rule reaches_unfold)
  then have "mark (\<Union>c\<in>set cs. {d. reaches k c d}) ?h1 = mark {d. reaches k e d} h"
    using el by (simp add: mark_single mark_mark)
  ultimately show ?case
    using el by (simp add: detach_walk_Inl)
qed


lemma finite_subtree_reaches:
  "reaches k e d \<Longrightarrow> finite_subtree k e \<Longrightarrow> finite_subtree k d"
proof (induction rule: reaches.induct)
  case (self e)
  then show ?case .
next
  case (child e cs c d)
  from child.prems child.hyps(1,2) have "finite_subtree k c"
    by (auto elim: finite_subtree.cases)
  then show ?case by (rule child.IH)
qed

lemma finite_subtree_defined: "finite_subtree k e \<Longrightarrow> \<exists>cs. k e = Some cs"
  by (auto elim: finite_subtree.cases)

lemma trace_send:
  "answer R req (world s) = ((rep, err), w) \<Longrightarrow>
   send R req s = ((rep, err), s\<lparr>world := w, trace := trace s @ [(req, err)]\<rparr>)"
  by (simp add: send_def)

text \<open>
  C10: \<open>Release\<close> on a handle marks the handle and its whole subtree of descendants as
  detached whatever the remote release call returns, also when it fails, and returns
  the error of that call. The handles outside the subtree keep their flag; one release
  request is made. The subtree below the handle is a finite tree, so the walk ends.
\<close>

theorem Release_detaches_subtree:
  assumes "heap s e = Some el"
    and "finite_subtree (kids (heap s)) e"
    and "answer R (Runtime_releaseObject (ID el)) (world s) = ((rep, err), w)"
  shows "\<exists>s'. Release R e s = Some (Ret err, s')
      \<and> heap s' = mark {d. reaches (kids (heap s)) e d} (heap s)
      \<and> (\<forall>d. reaches (kids (heap s)) e d \<longrightarrow> (\<exists>el'. heap s' d = Some el' \<and> isDetached el'))
      \<and> since s s' = [(Runtime_releaseObject (ID el), err)]
      \<and> world s' = w"
proof -
  let ?s1 = "s\<lparr>world := w, trace := trace s @ [(Runtime_releaseObject (ID el), err)]\<rparr>"
  let ?D = "{d. reaches (kids (heap s)) e d}"
  let ?s2 = "?s1\<lparr>heap := mark ?D (heap s)\<rparr>"
  have rel: "releaseObject R (ID el) s = (err, ?s1)"
    by (simp add: releaseObject_def trace_send [OF assms(3)])
  have "detach_walk (Inl e) (heap ?s1) = Some (Ret (), mark ?D (heap s))"
    using detach_walk_subtree [OF assms(2), of "heap s"] by simp
  then have det: "detach e ?s1 = Some (Ret (), ?s2)"
    by (simp add: detach_def)
  have res: "Release R e s = Some (Ret err, ?s2)"
    by (simp add: Release_def assms(1) rel det)
  have marked: "\<exists>el'. heap ?s2 d = Some el' \<and> isDetached el'" if "reaches (kids (heap s)) e d" for d
  proof -
    from that assms(2) have "finite_subtree (kids (heap s)) d"
      by (rule finite_subtree_reaches)
    then have "\<exists>cs. kids (heap s) d = Some cs"
      by (rule finite_subtree_defined)
    then obtain el' where "heap s d = Some el'"
      by (auto simp: kids_def)
    with that show ?thesis
      by (simp add: mark_def isDetached_def)
  qed
  have "since s ?s2 = [(Runtime_releaseObject (ID el), err)]"
    by (simp add: since_def)
  with res marked show ?thesis by auto
qed

lemma family_kids:
  "kids (heap (family_store flag)) 0 = Some [1]"
  "kids (heap (family_store flag)) 1 = Some [2]"
  "kids (heap (family_store flag)) 2 = Some []"
  "kids (heap (family_store flag)) (Suc 0) = Some [2]"
  by (simp_all add: kids_def family_store_def)

lemma family_finite: "finite_subtree (kids (heap (family_store flag))) 1"
proof -
  have "finite_subtree (kids (heap (family_store flag))) 2"
    by (rule finite_subtree.intros [where cs = "[]"]) (simp_all add: family_kids)
  then show ?thesis
    by (intro finite_subtree.intros [where cs = "[2]"]) (simp_all add: family_kids)
qed

lemma family_below:
  "reaches (kids (heap (family_store flag))) e d \<Longrightarrow> 1 \<le> e \<Longrightarrow> 1 \<le> d"
proof (induction rule: reaches.induct)
  case (self e)
  then show ?case .
next
  case (child e cs c d)
  from child.hyps(1,2) child.prems have "1 \<le> c"
    by (auto simp: kids_def family_store_def split: if_splits)
  then show ?case by (rule child.IH)
qed

theorem Release_detaches_subtree_witness:
  "\<exists>s'. Release closed_remote 1 (family_store 0) = Some (Ret (Some ErrSessionClosed), s')
     \<and> map_option detached (heap s' 0) = Some 0
     \<and> map_option isDetached (heap s' 1) = Some True
     \<and> map_option isDetached (heap s' 2) = Some True"
proof -
  let ?el = "\<lparr>ID = ''node-3'', description = ''form'', parent = Some 0, childs = [2], detached = 0\<rparr>"
  have h: "heap (family_store 0) 1 = Some ?el"
    by (simp add: family_store_def)
  have a: "answer closed_remote (Runtime_releaseObject (ID ?el)) (world (family_store 0))
             = ((ReplyNone, Some ErrSessionClosed), Suc 0)"
    by (simp add: closed_remote_def family_store_def)
  from Release_detaches_subtree [OF h family_finite a] obtain s'
    where r: "Release closed_remote 1 (family_store 0) = Some (Ret (Some ErrSessionClosed), s')"
      and m: "heap s' = mark {d. reaches (kids (heap (family_store 0))) 1 d} (heap (family_store 0))"
      and d: "\<forall>d. reaches (kids (heap (family_store 0))) 1 d \<longrightarrow> (\<exists>el'. heap s' d = Some el' \<and> isDetached el')"
    by blast
  have r1: "reaches (kids (heap (family_store 0))) 1 1" by (rule reaches.self)
  have r2: "reaches (kids (heap (family_store 0))) 1 2"
    by (rule reaches.child [where cs = "[2]" and c = 2]) (simp_all add: reaches.self family_kids)
  have not0: "\<not> reaches (kids (heap (family_store 0))) 1 0"
  proof
    assume "reaches (kids (heap (family_store 0))) 1 0"
    then have "(1::nat) \<le> 0" by (rule family_below) simp
    then show False by simp
  qed
  have "map_option detached (heap s' 0) = Some 0"
    using m not0 by (simp add: mark_def family_store_def)
  moreover have "map_option isDetached (heap s' 1) = Some True" using d r1 by auto
  moreover have "map_option isDetached (heap s' 2) = Some True" using d r2 by auto
  ultimately show ?thesis using r by blast
qed

subsection \<open>Re-validation before a call\<close>

lemma seq_Ret: "m s = (Ret x, s') \<Longrightarrow> seq m f s = f x s'"
  by (simp add: seq_def)

lemma seq_Panic: "m s = (Panic p, s') \<Longrightarrow> seq m f s = (Panic p, s')"
  by (simp add: seq_def)

lemma snd_seq_ret: "snd (seq m (\<lambda>x. ret (g x)) s) = snd (m s)"
  by (simp add: seq_def ret_def split: prod.split outcome.split)

lemma newElement_child:
  assumes "heap s p = Some pel" and "heap s (nxt s) = None"
  shows "newElement (Some p) i d s =
           (Ret (nxt s),
            s\<lparr>heap := (heap s)(nxt s \<mapsto> \<lparr>ID = i, description = d, parent = Some p, childs = [], detached = 0\<rparr>,
                                p \<mapsto> pel\<lparr>childs := childs pel @ [nxt s]\<rparr>),
              nxt := Suc (nxt s)\<rparr>)"
proof -
  have "p \<noteq> nxt s" using assms by auto
  then show ?thesis
    using assms by (simp add: newElement_def Let_def modify_def fun_upd_twist)
qed

lemma renew_attached:
  "heap s e = Some el \<Longrightarrow> \<not> isDetached el \<Longrightarrow> renew R e s = (Ret None, s)"
  by (simp add: renew_def)

lemma renew_detached_child:
  "heap s e = Some el \<Longrightarrow> isDetached el \<Longrightarrow> parent el = Some p \<Longrightarrow>
   renew R e s = (Ret None, Printf LevelFatal ''todo: renew element is not implemented yet'' s)"
  by (simp add: renew_def)

lemma renew_root_fail:
  assumes "heap s e = Some el" "isDetached el" "parent el = None"
    and "answer R (Runtime_evaluate ''document'' (getContextID R (world s)) False) (world s) = ((rep, Some err), w)"
  shows "renew R e s = (Ret (Some ErrStaleElementReference),
           s\<lparr>world := w, trace := trace s @ [(Runtime_evaluate ''document'' (getContextID R (world s)) False, Some err)]\<rparr>)"
  using assms by (simp add: renew_def evaluate_def trace_send [OF assms(4)])

lemma renew_root_ok:
  assumes "heap s e = Some el" "isDetached el" "parent el = None"
    and "answer R (Runtime_evaluate ''document'' (getContextID R (world s)) False) (world s) = ((rep, None), w)"
    and "object_of rep = Some new"
  shows "renew R e s = (Ret None,
           s\<lparr>world := w, trace := trace s @ [(Runtime_evaluate ''document'' (getContextID R (world s)) False, None)],
              heap := (heap s)(e \<mapsto> el\<lparr>ID := ObjectID new, detached := 0\<rparr>)\<rparr>)"
  using assms by (simp add: renew_def evaluate_def trace_send [OF assms(4)] modify_def)

lemma call_attached:
  assumes "heap s e = Some el" "\<not> isDetached el"
    and "answer R (Runtime_callFunctionOn (ID el) f args) (world s) = ((rep, err), w)"
  shows "call R e f args s =
           (Ret (if err = None then object_of rep else None, err),
            s\<lparr>world := w, trace := trace s @ [(Runtime_callFunctionOn (ID el) f args, err)]\<rparr>)"
  using assms(1,2)
  by (cases err)
     (simp_all add: call_def seq_def ret_def lift_def deref_def renew_attached callFunctionOn_def
        trace_send [OF assms(3)])

text \<open>
  C1 against the code: \<open>Seek\<close> on a detached handle with a parent. \<open>renew\<close> logs that
  renewing is not implemented and returns no error (the logger, outside the sources at
  hand, is taken to return), so the query is sent with the stale identifier and the
  operation succeeds with a new child, where the claim has the stale-reference error.
  The handle is not healed: it is still detached and keeps its identifier.
\<close>

theorem stale_child_proceeds:
  "fst (Seek live_remote 1 ''input'' (family_store 1)) = Ret (Some 3, None)
   \<and> map fst (since (family_store 1) (snd (Seek live_remote 1 ''input'' (family_store 1))))
        = [Logging_Printf LevelFatal ''todo: renew element is not implemented yet'',
           Logging_Printf LevelFatal ''todo: renew element is not implemented yet'',
           Runtime_callFunctionOn ''node-3'' atom_Query [ArgString ''input'']]
   \<and> map_option isDetached (heap (snd (Seek live_remote 1 ''input'' (family_store 1))) 1) = Some True
   \<and> map_option ID (heap (snd (Seek live_remote 1 ''input'' (family_store 1))) 1) = Some ''node-3''"
  by (simp add: Seek_def findElement_def call_def seq_def ret_def lift_def deref_def renew_def
      callFunctionOn_def send_def Printf_def newElement_def modify_def Let_def escape_quotes_def
      isDetached_def since_def family_store_def live_remote_def node_object_def)

text \<open>
  C9 against the code: \<open>IsChecked\<close> reads \<open>checked.Bool()\<close> and \<open>Select\<close> reads
  \<open>has.Bool()\<close> without looking at the error, so when the remote call fails (a closed
  session, or a detached root whose re-resolution fails) the \<open>nil\<close> result is read;
  \<open>findElements\<close> reads \<open>ro.ObjectID\<close> in the very branch where \<open>ro == nil\<close>, so
  \<open>SeekAll\<close> panics when the query returns no object and no error.
\<close>

theorem nil_result_dereferenced:
  "fst (IsChecked closed_remote 1 (family_store 0)) = Panic NilDereference
   \<and> fst (IsChecked closed_remote 0 (family_store 1)) = Panic NilDereference
   \<and> fst (Select select_remote 1 [''a''] (family_store 0)) = Panic NilDereference
   \<and> fst (SeekAll select_remote 1 ''option'' (family_store 0)) = Panic NilDereference"
  by (simp add: IsChecked_def Select_def SeekAll_def findElements_def getNode_def call_def
      seq_def ret_def raise_def lift_def deref_def renew_def evaluate_def callFunctionOn_def
      blockingSend_def send_def isDetached_def family_store_def closed_remote_def select_remote_def
      escape_quotes_def)

subsection \<open>Expect\<close>









subsection \<open>No operation but Click takes a failed request for a success\<close>








lemma always_ret: "I x \<Longrightarrow> always I (ret x)"
  by (simp add: always_def ret_def)



lemma always_raise: "always I (raise p)"
  by (simp add: always_def raise_def)







text \<open>The methods of the session: one request each.\<close>

lemma send_trace: "send R req s = ((rep, err), s') \<Longrightarrow> trace s' = trace s @ [(req, err)]"
  by (auto simp: send_def split: prod.splits)

lemma clean_lift:
  assumes "\<And>s x s'. m s = (x, s') \<Longrightarrow> P x \<Longrightarrow> \<exists>new. trace s' = trace s @ new \<and> \<not> list_ex failed new"
  shows "clean P (lift m)"
  using assms by (auto simp: clean_def lift_def split: prod.splits)









lemma clean_releaseObject: "clean (\<lambda>err. err = None) (lift (releaseObject R i))"
  by (rule clean_lift) (auto simp: releaseObject_def failed_def dest!: send_trace split: prod.splits)




























































subsection \<open>The stores that newElement builds\<close>

lemma built_finite_subtree:
  "built s \<Longrightarrow> heap s e = Some el \<Longrightarrow> finite_subtree (kids (heap s)) e"
proof (induction "nxt s - e" arbitrary: e el rule: less_induct)
  case less
  have k: "kids (heap s) e = Some (childs el)"
    using less.prems(2) by (simp add: kids_def)
  have "finite_subtree (kids (heap s)) c" if "c \<in> set (childs el)" for c
  proof -
    from less.prems that have c: "e < c" "c < nxt s" "heap s c \<noteq> None"
      by (auto simp: built_def)
    then obtain elc where "heap s c = Some elc" by auto
    moreover have "nxt s - c < nxt s - e" using c by simp
    ultimately show ?thesis using less.hyps less.prems(1) by blast
  qed
  then show ?case
    by (intro finite_subtree.intros [where cs = "childs el"]) (simp_all add: k)
qed

lemma built_empty: "built \<lparr>heap = Map.empty, nxt = n, world = w, trace = tr\<rparr>"
  by (simp add: built_def)

lemma built_root: "built s \<Longrightarrow> built (snd (newElement None i d s))"
  by (auto simp: built_def newElement_def Let_def split: if_splits) force+

lemma built_child:
  assumes "built s" and "heap s p = Some pel"
  shows "built (snd (newElement (Some p) i d s))"
proof -
  have fresh: "heap s (nxt s) = None"
    using assms(1) by (cases "heap s (nxt s)") (auto simp: built_def)
  have p: "p < nxt s" using assms by (auto simp: built_def)
  show ?thesis
    unfolding newElement_child [OF assms(2) fresh]
    using assms p by (auto simp: built_def split: if_splits) force+
qed

lemma built_family: "built (family_store flag)"
  by (auto simp: built_def family_store_def split: if_splits)

subsection \<open>After the re-resolution of the root\<close>

lemma steady_seq:
  assumes "steady e i m" and "\<And>x. steady e i (f x)"
  shows "steady e i (seq m f)"
  unfolding steady_def
proof (intro allI impI)
  fix s r s''
  assume st: "settled e i s" and run: "seq m f s = (r, s'')"
  obtain r1 s' where m: "m s = (r1, s')" by (cases "m s")
  from assms(1) st m obtain new1 where s': "settled e i s'"
      and n1: "trace s' = trace s @ new1" "\<not> list_ex is_evaluate new1"
    unfolding steady_def by blast
  show "settled e i s'' \<and> (\<exists>new. trace s'' = trace s @ new \<and> \<not> list_ex is_evaluate new)"
  proof (cases r1)
    case (Panic p)
    with run m have "s'' = s'" by (simp add: seq_def)
    with s' n1 show ?thesis by blast
  next
    case (Ret x)
    with run m have "f x s' = (r, s'')" by (simp add: seq_def)
    with assms(2) [of x] s' obtain new2 where "settled e i s''"
        and "trace s'' = trace s' @ new2" "\<not> list_ex is_evaluate new2"
      unfolding steady_def by blast
    with n1 have "settled e i s'' \<and> trace s'' = trace s @ (new1 @ new2) \<and> \<not> list_ex is_evaluate (new1 @ new2)"
      by simp
    then show ?thesis by blast
  qed
qed

lemma leads_seq:
  assumes "leads e i fd a m" and "\<And>x. steady e i (f x)"
  shows "leads e i fd a (seq m f)"
  unfolding leads_def
proof (intro allI impI)
  fix s r s''
  assume st: "settled e i s" and run: "seq m f s = (r, s'')"
  obtain r1 s' where m: "m s = (r1, s')" by (cases "m s")
  from assms(1) st m obtain err rest1 where s': "settled e i s'"
      and n1: "trace s' = trace s @ (Runtime_callFunctionOn i fd a, err) # rest1" "\<not> list_ex is_evaluate rest1"
    unfolding leads_def by blast
  show "settled e i s'' \<and> (\<exists>err rest. trace s'' = trace s @ (Runtime_callFunctionOn i fd a, err) # rest
          \<and> \<not> list_ex is_evaluate rest)"
  proof (cases r1)
    case (Panic p)
    with run m have "s'' = s'" by (simp add: seq_def)
    with s' n1 show ?thesis by blast
  next
    case (Ret x)
    with run m have "f x s' = (r, s'')" by (simp add: seq_def)
    with assms(2) [of x] s' obtain new2 where "settled e i s''"
        and "trace s'' = trace s' @ new2" "\<not> list_ex is_evaluate new2"
      unfolding steady_def by blast
    with n1 have "settled e i s''
        \<and> trace s'' = trace s @ (Runtime_callFunctionOn i fd a, err) # (rest1 @ new2)
        \<and> \<not> list_ex is_evaluate (rest1 @ new2)"
      by simp
    then show ?thesis by blast
  qed
qed

lemma steady_ret: "steady e i (ret x)"
  by (simp add: steady_def ret_def)

lemma steady_raise: "steady e i (raise p)"
  by (simp add: steady_def raise_def)

lemma steady_deref: "steady e i (deref a)"
  by (auto simp: steady_def deref_def split: option.splits)

lemma steady_pause: "steady e i (pause ms)"
  by (auto simp: steady_def pause_def Sleep_def settled_def)

lemma steady_renew: "steady e i (renew R e)"
  by (auto simp: steady_def settled_def renew_def)

lemma renew_settled: "settled e i s \<Longrightarrow> renew R e s = (Ret None, s)"
  by (auto simp: settled_def renew_def)

lemma send_frame:
  "send R req s = (x, s') \<Longrightarrow> heap s' = heap s \<and> nxt s' = nxt s \<and> trace s' = trace s @ [(req, snd x)]"
  by (auto simp: send_def split: prod.splits)

lemma steady_lift:
  assumes "\<And>s x s'. m s = (x, s') \<Longrightarrow>
      heap s' = heap s \<and> nxt s' = nxt s \<and> (\<exists>ev. trace s' = trace s @ [ev] \<and> \<not> is_evaluate ev)"
  shows "steady e i (lift m)"
  unfolding steady_def
proof (intro allI impI)
  fix s r s'
  assume st: "settled e i s" and run: "lift m s = (r, s')"
  then obtain x where "m s = (x, s')" by (auto simp: lift_def split: prod.splits)
  from assms [OF this] obtain ev where "heap s' = heap s" "nxt s' = nxt s"
      "trace s' = trace s @ [ev]" "\<not> is_evaluate ev" by blast
  with st show "settled e i s' \<and> (\<exists>new. trace s' = trace s @ new \<and> \<not> list_ex is_evaluate new)"
    by (auto simp: settled_def)
qed

lemma steady_callFunctionOn: "steady e i (lift (callFunctionOn R j f a))"
  by (rule steady_lift) (auto simp: callFunctionOn_def dest!: send_frame split: prod.splits option.splits)

lemma steady_blockingSend_focus: "steady e i (lift (blockingSend R (DOM_focus j)))"
  by (rule steady_lift) (auto simp: blockingSend_def dest!: send_frame)

lemma steady_getContentQuads: "steady e i (lift (getContentQuads R j c))"
  by (rule steady_lift) (auto simp: getContentQuads_def dest!: send_frame split: prod.splits option.splits)

lemma steady_getProperties: "steady e i (lift (getProperties R j))"
  by (rule steady_lift) (auto simp: getProperties_def dest!: send_frame split: prod.splits option.splits)

lemma steady_releaseObject: "steady e i (lift (releaseObject R j))"
  by (rule steady_lift) (auto simp: releaseObject_def dest!: send_frame split: prod.splits)

lemma steady_dispatchMouseEvent: "steady e i (lift (dispatchMouseEvent R x y t b))"
  by (rule steady_lift) (auto simp: dispatchMouseEvent_def dest!: send_frame split: prod.splits)

lemma steady_MouseMove: "steady e i (lift (MouseMove R x y))"
  by (rule steady_lift) (auto simp: MouseMove_def dest!: send_frame split: prod.splits)

lemma steady_insertText: "steady e i (lift (insertText R t))"
  by (rule steady_lift) (auto simp: insertText_def dest!: send_frame split: prod.splits)

lemma steady_SendKeys: "steady e i (lift (SendKeys R k))"
  by (rule steady_lift) (auto simp: SendKeys_def dest!: send_frame split: prod.splits)

lemma settled_newElement:
  assumes "settled e i s" and "newElement (Some e) j d s = (r, s')"
  shows "settled e i s' \<and> trace s' = trace s"
proof -
  from assms(1) obtain el where el: "heap s e = Some el" "\<not> isDetached el" "ID el = i"
    and fresh: "\<forall>a. nxt s \<le> a \<longrightarrow> heap s a = None"
    by (auto simp: settled_def)
  from fresh have n: "heap s (nxt s) = None" by simp
  have "s' = snd (newElement (Some e) j d s)" using assms(2) by simp
  then have s': "s' = s\<lparr>heap := (heap s)(nxt s \<mapsto> \<lparr>ID = j, description = d, parent = Some e, childs = [], detached = 0\<rparr>,
                                e \<mapsto> el\<lparr>childs := childs el @ [nxt s]\<rparr>),
              nxt := Suc (nxt s)\<rparr>"
    by (simp add: newElement_child [OF el(1) n])
  show ?thesis
    unfolding s' settled_def using el fresh by (auto simp: isDetached_def)
qed

lemma steady_newElement: "steady e i (newElement (Some e) j d)"
  unfolding steady_def
proof (intro allI impI)
  fix s r s'
  assume "settled e i s" and "newElement (Some e) j d s = (r, s')"
  then have "settled e i s' \<and> trace s' = trace s" by (rule settled_newElement)
  then show "settled e i s' \<and> (\<exists>new. trace s' = trace s @ new \<and> \<not> list_ex is_evaluate new)"
    by simp
qed

lemma settled_newElements:
  "settled e i s \<Longrightarrow> newElements e ds els s = (r, s') \<Longrightarrow> settled e i s' \<and> trace s' = trace s"
proof (induction ds arbitrary: els s)
  case Nil
  then show ?case by simp
next
  case (Cons d ds)
  show ?case
  proof (cases "Enumerable d")
    case False
    with Cons show ?thesis by simp
  next
    case True
    show ?thesis
    proof (cases "propValue d")
      case None
      with True Cons.prems show ?thesis by simp
    next
      case (Some v)
      obtain r1 s1 where n: "newElement (Some e) (ObjectID v) (Description v) s = (r1, s1)"
        by (cases "newElement (Some e) (ObjectID v) (Description v) s")
      with Cons.prems(1) have s1: "settled e i s1 \<and> trace s1 = trace s"
        by (rule settled_newElement)
      show ?thesis
      proof (cases r1)
        case (Ret new)
        with True Some n Cons.prems have "newElements e ds (els @ [new]) s1 = (r, s')" by simp
        with s1 have "settled e i s' \<and> trace s' = trace s1" by (intro Cons.IH) simp_all
        with s1 show ?thesis by simp
      next
        case (Panic p)
        with True Some n Cons.prems s1 show ?thesis by auto
      qed
    qed
  qed
qed

lemma steady_newElements: "steady e i (newElements e ds els)"
  unfolding steady_def
proof (intro allI impI)
  fix s r s'
  assume "settled e i s" and "newElements e ds els s = (r, s')"
  then have "settled e i s' \<and> trace s' = trace s" by (rule settled_newElements)
  then show "settled e i s' \<and> (\<exists>new. trace s' = trace s @ new \<and> \<not> list_ex is_evaluate new)"
    by simp
qed

lemmas steady_steps = steady_seq steady_ret steady_raise steady_deref steady_pause steady_renew
  steady_callFunctionOn steady_blockingSend_focus steady_getContentQuads steady_getProperties
  steady_releaseObject steady_dispatchMouseEvent steady_MouseMove steady_insertText steady_SendKeys
  steady_newElement steady_newElements

lemma steady_call: "steady e i (call R e f a)"
  unfolding call_def by (auto intro!: steady_steps split: option.split)

lemma steady_clickablePoint: "steady e i (clickablePoint R e)"
  unfolding clickablePoint_def by (auto intro!: steady_steps split: option.split prod.split)

lemma steady_Focus: "steady e i (Focus R e)"
  unfolding Focus_def by (auto intro!: steady_steps split: option.split prod.split)

lemma steady_Clear: "steady e i (Clear R e)"
  unfolding Clear_def by (auto intro!: steady_Focus steady_call steady_steps split: option.split)

lemma leads_call: "leads e i f a (call R e f a)"
  unfolding leads_def
proof (intro allI impI)
  fix s r s'
  assume st: "settled e i s" and run: "call R e f a s = (r, s')"
  from st obtain el where el: "heap s e = Some el" "ID el = i" by (auto simp: settled_def)
  obtain x s1 where c: "callFunctionOn R i f a s = (x, s1)" by (cases "callFunctionOn R i f a s")
  then have fr: "heap s1 = heap s \<and> nxt s1 = nxt s \<and> trace s1 = trace s @ [(Runtime_callFunctionOn i f a, snd x)]"
    by (auto simp: callFunctionOn_def dest!: send_frame split: prod.splits option.splits)
  have "call R e f a s = (Ret x, s1)"
    using el c by (simp add: call_def seq_def lift_def deref_def renew_settled [OF st])
  with run have "s' = s1" by simp
  with fr st show "settled e i s' \<and> (\<exists>err rest. trace s' = trace s @ (Runtime_callFunctionOn i f a, err) # rest
          \<and> \<not> list_ex is_evaluate rest)"
    by (auto simp: settled_def)
qed

lemma leads_seq_call: "(\<And>x. steady e i (k x)) \<Longrightarrow> leads e i f a (seq (call R e f a) k)"
  by (rule leads_seq [OF leads_call])

lemma leads_seq_renew:
  assumes "leads e i f a (g None)"
  shows "leads e i f a (seq (renew R e) g)"
  using assms by (auto simp: leads_def seq_def renew_settled)

lemmas steady_all = steady_call steady_clickablePoint steady_Focus steady_Clear steady_steps

lemma leads_findElement: "leads e i atom_Query [ArgString (escape_quotes selector)] (findElement R e selector)"
  unfolding findElement_def
  by (rule leads_seq_renew) (auto intro!: leads_seq_call steady_all split: option.split)

lemma leads_findElements: "leads e i atom_QueryAll [ArgString (escape_quotes selector)] (findElements R e selector)"
  unfolding findElements_def
  by (rule leads_seq_renew) (auto intro!: leads_seq_call steady_all split: option.split)

lemma leads_SeekAll: "leads e i atom_QueryAll [ArgString (escape_quotes selector)] (SeekAll R e selector)"
  unfolding SeekAll_def
  by (rule leads_seq [OF leads_findElements]) (auto intro!: steady_all split: option.split)

lemma leads_Click: "leads e i atom_ScrollIntoView [] (Click R e)"
  unfolding Click_def by (auto intro!: leads_seq_call steady_all split: option.split)

lemma leads_Hover: "leads e i atom_ScrollIntoView [] (Hover R e)"
  unfolding Hover_def by (auto intro!: leads_seq_call steady_all split: option.split)

lemma leads_Type: "leads e i atom_IsVisible [] (Type' R e content key)"
  unfolding Type'_def by (auto intro!: leads_seq_call steady_all split: option.split)

lemma leads_string: "leads e i f a (string' R e f a)"
  unfolding string'_def by (auto intro!: leads_seq_call steady_all split: option.split remote_value.split)

lemma leads_SetAttr: "leads e i atom_SetAttr [ArgString attr, ArgString val] (SetAttr R e attr val)"
  unfolding SetAttr_def by (auto intro!: leads_seq_call steady_all split: option.split)

lemma leads_GetSelected:
  "leads e i (if selectedText then atom_GetSelectedText else atom_GetSelected) [] (GetSelected R e selectedText)"
  unfolding GetSelected_def Let_def
  by (auto intro!: leads_seq_call steady_all split: option.split outcome.split)

lemma leads_Checkbox: "leads e i atom_CheckBox [ArgBool check] (Checkbox R e check)"
  unfolding Checkbox_def by (auto intro!: leads_seq_call steady_all split: option.split)

lemma leads_IsChecked: "leads e i atom_IsChecked [] (IsChecked R e)"
  unfolding IsChecked_def by (auto intro!: leads_seq_call steady_all split: option.split)

lemma resume_renew:
  "renew R e s = (Ret None, s1) \<Longrightarrow> renew R e s1 = (Ret None, s1) \<Longrightarrow>
   seq (renew R e) g s = seq (renew R e) g s1"
  by (simp add: seq_def)

lemma resume_call:
  "renew R e s = (Ret None, s1) \<Longrightarrow> renew R e s1 = (Ret None, s1) \<Longrightarrow>
   call R e f a s = call R e f a s1"
  unfolding call_def by (rule resume_renew)

lemma resume_seq: "m s = m s1 \<Longrightarrow> seq m k s = seq m k s1"
  by (simp add: seq_def)

lemma heal:
  assumes "heap s e = Some el" and "isDetached el" and "parent el = None"
    and "\<forall>a. nxt s \<le> a \<longrightarrow> heap s a = None"
    and "answer R (document_request R s) (world s) = ((rep, None), w)"
    and "object_of rep = Some new"
    and same: "\<And>s1. renew R e s = (Ret None, s1) \<Longrightarrow> renew R e s1 = (Ret None, s1) \<Longrightarrow> m s = m s1"
    and lead: "leads e (ObjectID new) f a m"
  shows "healed R s (ObjectID new) f a e (snd (m s))"
proof -
  define s1 where "s1 = s\<lparr>world := w, trace := trace s @ [(document_request R s, None)],
              heap := (heap s)(e \<mapsto> el\<lparr>ID := ObjectID new, detached := 0\<rparr>)\<rparr>"
  have rn: "renew R e s = (Ret None, s1)"
    unfolding s1_def document_request_def
    using assms(5) by (intro renew_root_ok [OF assms(1-3) _ assms(6)]) (simp add: document_request_def)
  have st: "settled e (ObjectID new) s1"
    using assms(1,4) by (auto simp: settled_def s1_def isDetached_def)
  have t1: "trace s1 = trace s @ [(document_request R s, None)]" by (simp add: s1_def)
  have "m s = m s1" using rn renew_settled [OF st] by (rule same)
  moreover obtain r s' where run: "m s1 = (r, s')" by (cases "m s1")
  ultimately have s': "snd (m s) = s'" by simp
  from lead st run obtain err rest where st': "settled e (ObjectID new) s'"
      and tr: "trace s' = trace s1 @ (Runtime_callFunctionOn (ObjectID new) f a, err) # rest"
      and ne: "\<not> list_ex is_evaluate rest"
    unfolding leads_def by blast
  have since: "since s s' = (document_request R s, None) # (Runtime_callFunctionOn (ObjectID new) f a, err) # rest"
    using tr t1 by (simp add: since_def)
  have "filter is_evaluate rest = []"
    using ne by (auto simp: filter_empty_conv list_ex_iff)
  then have one: "length (filter is_evaluate (since s s')) = 1"
    unfolding since by (simp add: document_request_def)
  from st' have "map_option ID (heap s' e) = Some (ObjectID new)"
      and "map_option isDetached (heap s' e) = Some False"
    by (auto simp: settled_def)
  with since ne one show ?thesis
    unfolding healed_def s' by blast
qed

text \<open>
  C4, amended: for every document-root handle (no parent) that is marked detached, when
  the next operation on it is one that starts with the pre-call re-validation (\<open>Seek\<close>,
  \<open>SeekAll\<close>, \<open>Click\<close>, \<open>Hover\<close>, \<open>Type\<close>, \<open>GetText\<close>, \<open>GetAttr\<close>,
  \<open>GetComputedStyle\<close>, \<open>SetAttr\<close>, \<open>GetSelected\<close>, \<open>Checkbox\<close>, \<open>IsChecked\<close>, and the
  function call \<open>call\<close> they are built on), it makes exactly one re-resolution of the
  root against the session's current top-level execution context, before any other
  request. When the re-resolution succeeds with an object, the handle has the
  identifier of that object and its flag is clear afterward, and the operation proceeds
  with its function call on the fresh identifier. When it fails, the operation makes no
  other request and the flag stays set: \<open>call\<close>, \<open>Seek\<close>, \<open>Click\<close>, \<open>Hover\<close>, \<open>GetText\<close>,
  \<open>GetAttr\<close>, \<open>GetComputedStyle\<close>, \<open>SetAttr\<close>, \<open>GetSelected\<close> and \<open>Checkbox\<close> return
  the stale-reference error, \<open>Type\<close> returns the not-focusable error, and \<open>SeekAll\<close>
  returns no handle. (The addresses of the store from the next one on are free, as they
  always are.)
\<close>

theorem root_renewed_once:
  assumes "heap s e = Some el" and "isDetached el" and "parent el = None"
    and "\<forall>a. nxt s \<le> a \<longrightarrow> heap s a = None"
    and "answer R (document_request R s) (world s) = ((rep, err), w)"
  shows "(err = None \<and> object_of rep = Some new \<longrightarrow>
            healed R s (ObjectID new) f args e (snd (call R e f args s))
          \<and> healed R s (ObjectID new) atom_Query [ArgString (escape_quotes selector)] e (snd (Seek R e selector s))
          \<and> healed R s (ObjectID new) atom_QueryAll [ArgString (escape_quotes selector)] e (snd (SeekAll R e selector s))
          \<and> healed R s (ObjectID new) atom_ScrollIntoView [] e (snd (Click R e s))
          \<and> healed R s (ObjectID new) atom_ScrollIntoView [] e (snd (Hover R e s))
          \<and> healed R s (ObjectID new) atom_IsVisible [] e (snd (Type' R e content key s))
          \<and> healed R s (ObjectID new) atom_GetInnerText [] e (snd (GetText R e s))
          \<and> healed R s (ObjectID new) atom_GetAttr [ArgString attr] e (snd (GetAttr R e attr s))
          \<and> healed R s (ObjectID new) atom_GetComputedStyle [ArgString style] e (snd (GetComputedStyle R e style s))
          \<and> healed R s (ObjectID new) atom_SetAttr [ArgString attr, ArgString val] e (snd (SetAttr R e attr val s))
          \<and> healed R s (ObjectID new) (if selectedText then atom_GetSelectedText else atom_GetSelected) [] e
                (snd (GetSelected R e selectedText s))
          \<and> healed R s (ObjectID new) atom_CheckBox [ArgBool check] e (snd (Checkbox R e check s))
          \<and> healed R s (ObjectID new) atom_IsChecked [] e (snd (IsChecked R e s)))
       \<and> (err \<noteq> None \<longrightarrow>
            unhealed R s err (snd (call R e f args s))
          \<and> fst (call R e f args s) = Ret (None, Some ErrStaleElementReference)
          \<and> unhealed R s err (snd (Seek R e selector s))
          \<and> fst (Seek R e selector s) = Ret (None, Some ErrStaleElementReference)
          \<and> unhealed R s err (snd (SeekAll R e selector s))
          \<and> fst (SeekAll R e selector s) = Ret []
          \<and> unhealed R s err (snd (Click R e s))
          \<and> fst (Click R e s) = Ret (Some ErrStaleElementReference)
          \<and> unhealed R s err (snd (Hover R e s))
          \<and> fst (Hover R e s) = Ret (Some ErrStaleElementReference)
          \<and> unhealed R s err (snd (Type' R e content key s))
          \<and> fst (Type' R e content key s) = Ret (Some ErrElementNotFocusable)
          \<and> unhealed R s err (snd (GetText R e s))
          \<and> fst (GetText R e s) = Ret ('''', Some ErrStaleElementReference)
          \<and> unhealed R s err (snd (GetAttr R e attr s))
          \<and> fst (GetAttr R e attr s) = Ret ('''', Some ErrStaleElementReference)
          \<and> unhealed R s err (snd (GetComputedStyle R e style s))
          \<and> fst (GetComputedStyle R e style s) = Ret ('''', Some ErrStaleElementReference)
          \<and> unhealed R s err (snd (SetAttr R e attr val s))
          \<and> fst (SetAttr R e attr val s) = Ret (Some ErrStaleElementReference)
          \<and> unhealed R s err (snd (GetSelected R e selectedText s))
          \<and> fst (GetSelected R e selectedText s) = Ret ([], Some ErrStaleElementReference)
          \<and> unhealed R s err (snd (Checkbox R e check s))
          \<and> fst (Checkbox R e check s) = Ret (Some ErrStaleElementReference)
          \<and> unhealed R s err (snd (IsChecked R e s)))"
proof (intro conjI impI)
  assume ok: "err = None \<and> object_of rep = Some new"
  then have a: "answer R (document_request R s) (world s) = ((rep, None), w)"
      and o: "object_of rep = Some new"
    using assms(5) by simp_all
  note h = heal [OF assms(1-4) a o]
  show "healed R s (ObjectID new) f args e (snd (call R e f args s))"
    by (rule h [OF resume_call leads_call])
  show "healed R s (ObjectID new) atom_Query [ArgString (escape_quotes selector)] e (snd (Seek R e selector s))"
    unfolding Seek_def
    by (rule h [OF _ leads_findElement]) (unfold findElement_def, rule resume_renew)
  show "healed R s (ObjectID new) atom_QueryAll [ArgString (escape_quotes selector)] e (snd (SeekAll R e selector s))"
    by (rule h [OF _ leads_SeekAll])
       (unfold SeekAll_def findElements_def, rule resume_seq, rule resume_renew)
  show "healed R s (ObjectID new) atom_ScrollIntoView [] e (snd (Click R e s))"
    by (rule h [OF _ leads_Click]) (unfold Click_def, rule resume_seq, rule resume_call)
  show "healed R s (ObjectID new) atom_ScrollIntoView [] e (snd (Hover R e s))"
    by (rule h [OF _ leads_Hover]) (unfold Hover_def, rule resume_seq, rule resume_call)
  show "healed R s (ObjectID new) atom_IsVisible [] e (snd (Type' R e content key s))"
    by (rule h [OF _ leads_Type]) (unfold Type'_def, rule resume_seq, rule resume_call)
  show "healed R s (ObjectID new) atom_GetInnerText [] e (snd (GetText R e s))"
    unfolding GetText_def
    by (rule h [OF _ leads_string]) (unfold string'_def, rule resume_seq, rule resume_call)
  show "healed R s (ObjectID new) atom_GetAttr [ArgString attr] e (snd (GetAttr R e attr s))"
    unfolding GetAttr_def
    by (rule h [OF _ leads_string]) (unfold string'_def, rule resume_seq, rule resume_call)
  show "healed R s (ObjectID new) atom_GetComputedStyle [ArgString style] e (snd (GetComputedStyle R e style s))"
    unfolding GetComputedStyle_def
    by (rule h [OF _ leads_string]) (unfold string'_def, rule resume_seq, rule resume_call)
  show "healed R s (ObjectID new) atom_SetAttr [ArgString attr, ArgString val] e (snd (SetAttr R e attr val s))"
    by (rule h [OF _ leads_SetAttr]) (unfold SetAttr_def, rule resume_seq, rule resume_call)
  show "healed R s (ObjectID new) (if selectedText then atom_GetSelectedText else atom_GetSelected) [] e
          (snd (GetSelected R e selectedText s))"
    by (rule h [OF _ leads_GetSelected]) (unfold GetSelected_def Let_def, rule resume_seq, rule resume_call)
  show "healed R s (ObjectID new) atom_CheckBox [ArgBool check] e (snd (Checkbox R e check s))"
    by (rule h [OF _ leads_Checkbox]) (unfold Checkbox_def, rule resume_seq, rule resume_call)
  show "healed R s (ObjectID new) atom_IsChecked [] e (snd (IsChecked R e s))"
    by (rule h [OF _ leads_IsChecked]) (unfold IsChecked_def, rule resume_seq, rule resume_call)
next
  assume "err \<noteq> None"
  then obtain x where x: "err = Some x" by auto
  define s1 where "s1 = s\<lparr>world := w, trace := trace s @ [(document_request R s, Some x)]\<rparr>"
  have rn: "renew R e s = (Ret (Some ErrStaleElementReference), s1)"
    unfolding s1_def document_request_def
    using assms(5) x by (intro renew_root_fail [OF assms(1-3)]) (simp add: document_request_def)
  have u: "unhealed R s err s1"
    by (simp add: unhealed_def since_def s1_def x)
  have c: "call R e fd a s = (Ret (None, Some ErrStaleElementReference), s1)" for fd a
    by (simp add: call_def seq_def ret_def rn)
  show "unhealed R s err (snd (call R e f args s))" "fst (call R e f args s) = Ret (None, Some ErrStaleElementReference)"
    using u by (simp_all add: c)
  show "unhealed R s err (snd (Seek R e selector s))" "fst (Seek R e selector s) = Ret (None, Some ErrStaleElementReference)"
    using u by (simp_all add: Seek_def findElement_def seq_def ret_def rn)
  show "unhealed R s err (snd (SeekAll R e selector s))" "fst (SeekAll R e selector s) = Ret []"
    using u by (simp_all add: SeekAll_def findElements_def seq_def ret_def rn)
  show "unhealed R s err (snd (Click R e s))" "fst (Click R e s) = Ret (Some ErrStaleElementReference)"
    using u by (simp_all add: Click_def seq_def ret_def c)
  show "unhealed R s err (snd (Hover R e s))" "fst (Hover R e s) = Ret (Some ErrStaleElementReference)"
    using u by (simp_all add: Hover_def seq_def ret_def c)
  show "unhealed R s err (snd (Type' R e content key s))" "fst (Type' R e content key s) = Ret (Some ErrElementNotFocusable)"
    using u by (simp_all add: Type'_def seq_def ret_def c)
  show "unhealed R s err (snd (GetText R e s))" "fst (GetText R e s) = Ret ('''', Some ErrStaleElementReference)"
    using u by (simp_all add: GetText_def string'_def seq_def ret_def c)
  show "unhealed R s err (snd (GetAttr R e attr s))" "fst (GetAttr R e attr s) = Ret ('''', Some ErrStaleElementReference)"
    using u by (simp_all add: GetAttr_def string'_def seq_def ret_def c)
  show "unhealed R s err (snd (GetComputedStyle R e style s))"
    "fst (GetComputedStyle R e style s) = Ret ('''', Some ErrStaleElementReference)"
    using u by (simp_all add: GetComputedStyle_def string'_def seq_def ret_def c)
  show "unhealed R s err (snd (SetAttr R e attr val s))" "fst (SetAttr R e attr val s) = Ret (Some ErrStaleElementReference)"
    using u by (simp_all add: SetAttr_def seq_def ret_def c)
  show "unhealed R s err (snd (GetSelected R e selectedText s))"
    "fst (GetSelected R e selectedText s) = Ret ([], Some ErrStaleElementReference)"
    using u by (simp_all add: GetSelected_def Let_def seq_def ret_def c)
  show "unhealed R s err (snd (Checkbox R e check s))" "fst (Checkbox R e check s) = Ret (Some ErrStaleElementReference)"
    using u by (simp_all add: Checkbox_def seq_def ret_def c)
  show "unhealed R s err (snd (IsChecked R e s))"
    using u by (simp add: IsChecked_def seq_def raise_def c)
qed

lemmas closed_run = seq_def ret_def raise_def lift_def deref_def call_def renew_def evaluate_def
  callFunctionOn_def blockingSend_def getContentQuads_def getProperties_def releaseObject_def
  dispatchMouseEvent_def send_def modify_def isDetached_def since_def family_store_def

theorem root_renewed_once_witness:
  "healed live_remote (family_store 1) ''doc-2'' atom_ScrollIntoView [] 0
     (snd (Click live_remote 0 (family_store 1)))
   \<and> fst (Hover closed_remote 0 (family_store 1)) = Ret (Some ErrStaleElementReference)
   \<and> since (family_store 1) (snd (Hover closed_remote 0 (family_store 1)))
        = [(Runtime_evaluate ''document'' 1 False, Some ErrSessionClosed)]
   \<and> map_option isDetached (heap (snd (Hover closed_remote 0 (family_store 1))) 0) = Some True"
proof -
  let ?el = "\<lparr>ID = ''doc-1'', description = ''#document'', parent = None, childs = [1], detached = 1\<rparr>"
  have h: "heap (family_store 1) 0 = Some ?el" by (simp add: family_store_def)
  have d: "isDetached ?el" by (simp add: isDetached_def)
  have p: "parent ?el = None" by simp
  have n: "\<forall>a. nxt (family_store 1) \<le> a \<longrightarrow> heap (family_store 1) a = None"
    by (simp add: family_store_def)
  have live: "answer live_remote (document_request live_remote (family_store 1)) (world (family_store 1))
             = ((ReplyObject (Some document_object), None), Suc 0)"
    by (simp add: live_remote_def family_store_def document_request_def)
  have closed: "answer closed_remote (document_request closed_remote (family_store 1)) (world (family_store 1))
             = ((ReplyNone, Some ErrSessionClosed), Suc 0)"
    by (simp add: closed_remote_def family_store_def document_request_def)
  have "healed live_remote (family_store 1) (ObjectID document_object) atom_ScrollIntoView [] 0
          (snd (Click live_remote 0 (family_store 1)))"
    using root_renewed_once [OF h d p n live, where new = document_object] by simp
  then have one: "healed live_remote (family_store 1) ''doc-2'' atom_ScrollIntoView [] 0
          (snd (Click live_remote 0 (family_store 1)))"
    by (simp add: document_object_def)
  have "unhealed closed_remote (family_store 1) (Some ErrSessionClosed) (snd (Hover closed_remote 0 (family_store 1)))
      \<and> fst (Hover closed_remote 0 (family_store 1)) = Ret (Some ErrStaleElementReference)"
    using root_renewed_once [OF h d p n closed] by simp
  then have two: "fst (Hover closed_remote 0 (family_store 1)) = Ret (Some ErrStaleElementReference)
      \<and> since (family_store 1) (snd (Hover closed_remote 0 (family_store 1)))
           = [(Runtime_evaluate ''document'' 1 False, Some ErrSessionClosed)]
      \<and> map_option isDetached (heap (snd (Hover closed_remote 0 (family_store 1))) 0) = Some True"
    by (simp add: unhealed_def document_request_def closed_remote_def family_store_def isDetached_def)
  from one two show ?thesis by simp
qed

text \<open>
  C4, as stated, fails in four ways. When the re-resolution itself fails (a closed
  session), \<open>GetText\<close> makes the one evaluation, returns the stale-reference error, and
  the flag is still set afterward. \<open>Clear\<close> sends its focus request with the old
  identifier before the re-resolution is made. \<open>Focus\<close> makes no re-resolution at all
  and leaves the flag set. \<open>Expect\<close> re-resolves once for every attempt, three times
  here.
\<close>

theorem root_not_renewed_counterexample:
  "fst (GetText closed_remote 0 (family_store 1)) = Ret ('''', Some ErrStaleElementReference)
   \<and> map_option isDetached (heap (snd (GetText closed_remote 0 (family_store 1))) 0) = Some True
   \<and> since (family_store 1) (snd (GetText closed_remote 0 (family_store 1)))
        = [(Runtime_evaluate ''document'' 1 False, Some ErrSessionClosed)]
   \<and> map fst (since (family_store 1) (snd (Clear live_remote 0 (family_store 1))))
        = [DOM_focus ''doc-1'', Runtime_evaluate ''document'' 1 False,
           Runtime_callFunctionOn ''doc-2'' atom_ClearInput []]
   \<and> since (family_store 1) (snd (Focus live_remote 0 (family_store 1))) = [(DOM_focus ''doc-1'', None)]
   \<and> map_option isDetached (heap (snd (Focus live_remote 0 (family_store 1))) 0) = Some True
   \<and> length (filter is_evaluate
        (since (family_store 1) (snd (Expect closed_remote 0 ''#main'' False (family_store 1))))) = 3"
  by (simp add: GetText_def string'_def Clear_def Focus_def Expect_def Expect_attempt_def Seek_def
      findElement_def closed_run closed_remote_def live_remote_def document_object_def
      numeral_3_eq_3)


end
